theory Spec2Isabelle
  imports Complex_Main
begin

section \<open>The IPS 120-10 magnet power supply driver\<close>

text \<open>
  A shallow embedding of \<^verbatim>\<open>pymeasure/instruments/oxfordinstruments/ips120_10.py\<close>.
  The driver talks to the device over a command channel. Everything the driver does to
  the outside is recorded, in order, in a trace of events; what the outside answers is
  given by an environment that may depend on the whole trace so far, so the device is
  an arbitrary deterministic machine. Python floats are modelled as reals (no NaN, no
  rounding).
\<close>

subsection \<open>Exceptions\<close>

text \<open>
  \<^verbatim>\<open>class MagnetError(ValueError)\<close> and \<^verbatim>\<open>class SwitchHeaterStatusError(ValueError)\<close>
  carry their message; \<open>SwitchHeaterStatusError\<close> carries the status code that its
  message prints. \<open>ValueError\<close> stands for a plain ValueError (\<^verbatim>\<open>int('A')\<close>, a
  negative sleep), \<open>IndexError\<close> for a string index out of range, \<open>KeyError\<close> for a
  missing dictionary key, \<open>TimeoutError\<close> for the builtin (an OSError), and
  \<open>ChannelError\<close> for whatever else the transport raises.
\<close>

datatype exn =
    MagnetError string
  | SwitchHeaterStatusError int
  | ValueError
  | IndexError
  | KeyError
  | TimeoutError string
  | ChannelError string

text \<open>What \<^verbatim>\<open>except ValueError\<close> catches: ValueError and its subclasses.\<close>

fun is_ValueError :: "exn \<Rightarrow> bool" where
  "is_ValueError (MagnetError m) = True"
| "is_ValueError (SwitchHeaterStatusError c) = True"
| "is_ValueError ValueError = True"
| "is_ValueError IndexError = False"
| "is_ValueError KeyError = False"
| "is_ValueError (TimeoutError m) = False"
| "is_ValueError (ChannelError m) = False"

subsection \<open>Events, environment, world\<close>

text \<open>
  \<open>Ask c\<close>: the query \<open>c\<close> was sent and its reply read. \<open>WriteI f n\<close> and
  \<open>WriteF f x\<close>: the command \<^verbatim>\<open>f % n\<close> (resp. \<^verbatim>\<open>f % x\<close>) was sent, \<open>f\<close> being the
  format string of the property. \<open>Sleep d\<close>: \<^verbatim>\<open>sleep(d)\<close> was called. \<open>Clear\<close>: the
  connection buffer was cleared.
\<close>

datatype event =
    Ask string
  | WriteI string int
  | WriteF string real
  | Sleep real
  | Clear

fun is_write :: "event \<Rightarrow> bool" where
  "is_write (WriteI f n) = True"
| "is_write (WriteF f x) = True"
| "is_write e = False"

definition writes_of :: "event list \<Rightarrow> event list" where
  "writes_of evs = filter is_write evs"

text \<open>
  The environment: the collaborators that are not part of the driver.
  \<^item> \<open>status_reply h\<close>: the reply string to the query \<^verbatim>\<open>X\<close> sent after history \<open>h\<close>,
    or the exception the transport raises;
  \<^item> \<open>number_reply h c\<close>: for a query \<open>c\<close> whose reply is decoded by
    \<^verbatim>\<open>float(v[1:])\<close>, the decoded number, or the exception raised by the transport or
    by \<^verbatim>\<open>float\<close>;
  \<^item> \<open>write_fault h e\<close>: the exception, if any, that the transport raises when the
    write \<open>e\<close> is sent after history \<open>h\<close>;
  \<^item> \<open>clock h\<close>: what \<^verbatim>\<open>time()\<close> returns after history \<open>h\<close>;
  \<^item> \<open>truncated_range\<close>: the validator of that name imported from
    \<^verbatim>\<open>pymeasure.instruments.validators\<close>, called as \<^verbatim>\<open>validator(value, values)\<close>.
\<close>

record env =
  status_reply :: "event list \<Rightarrow> exn + string"
  number_reply :: "event list \<Rightarrow> string \<Rightarrow> exn + real"
  write_fault :: "event list \<Rightarrow> event \<Rightarrow> exn option"
  clock :: "event list \<Rightarrow> real"
  truncated_range :: "real \<Rightarrow> real list \<Rightarrow> exn + real"

text \<open>
  The world: the trace so far, and the one list object that the class attribute
  \<^verbatim>\<open>IPS120_10._FIELD_RANGE\<close> names. The same object is the \<^verbatim>\<open>values\<close> of the
  \<^verbatim>\<open>field_setpoint\<close> property, for every instance.
\<close>

record world =
  trace :: "event list"
  FIELD_RANGE :: "real list"

text \<open>
  An instance: its environment, and its own \<^verbatim>\<open>_SWITCH_HEATER_DELAY\<close> attribute when
  \<^verbatim>\<open>__init__\<close> has set one (otherwise the class attribute, 20, is found).
\<close>

record ips =
  ctx :: env
  inst_SWITCH_HEATER_DELAY :: "real option"

definition SWITCH_HEATER_DELAY :: "ips \<Rightarrow> real" where
  "SWITCH_HEATER_DELAY self =
     (case inst_SWITCH_HEATER_DELAY self of Some d \<Rightarrow> d | None \<Rightarrow> 20)"

subsection \<open>Computations\<close>

text \<open>
  An action takes the world and returns a value or the exception raised, with the world
  it leaves. A procedure may also not return (\<open>None\<close>): those are the methods that poll.
\<close>

type_synonym 'a act = "world \<Rightarrow> (exn + 'a) \<times> world"
type_synonym 'a proc = "world \<Rightarrow> ((exn + 'a) \<times> world) option"

definition ret :: "'a \<Rightarrow> 'a act" where
  "ret x w = (Inr x, w)"

definition raise :: "exn \<Rightarrow> 'a act" where
  "raise e w = (Inl e, w)"

definition bind :: "'a act \<Rightarrow> ('a \<Rightarrow> 'b act) \<Rightarrow> 'b act" where
  "bind m f w = (case m w of (Inl e, w') \<Rightarrow> (Inl e, w') | (Inr x, w') \<Rightarrow> f x w')"

definition lift :: "'a act \<Rightarrow> 'a proc" where
  "lift m w = Some (m w)"

definition pbind :: "'a proc \<Rightarrow> ('a \<Rightarrow> 'b proc) \<Rightarrow> 'b proc" where
  "pbind m f w =
     (case m w of
        None \<Rightarrow> None
      | Some (Inl e, w') \<Rightarrow> Some (Inl e, w')
      | Some (Inr x, w') \<Rightarrow> f x w')"

definition emit :: "event \<Rightarrow> world \<Rightarrow> world" where
  "emit e w = w\<lparr>trace := trace w @ [e]\<rparr>"

text \<open>\<^verbatim>\<open>sleep(d)\<close> raises ValueError for a negative \<open>d\<close>.\<close>

definition sleep :: "real \<Rightarrow> unit act" where
  "sleep d w = (if d < 0 then (Inl ValueError, w) else (Inr (), emit (Sleep d) w))"

definition ask_status :: "ips \<Rightarrow> string act" where
  "ask_status self w = (status_reply (ctx self) (trace w), emit (Ask ''X'') w)"

definition ask_number :: "ips \<Rightarrow> string \<Rightarrow> real act" where
  "ask_number self c w = (number_reply (ctx self) (trace w) c, emit (Ask c) w)"

definition send :: "ips \<Rightarrow> event \<Rightarrow> unit act" where
  "send self e w =
     (case write_fault (ctx self) (trace w) e of
        Some x \<Rightarrow> (Inl x, emit e w)
      | None \<Rightarrow> (Inr (), emit e w))"

subsection \<open>Decoding the status string\<close>

text \<open>\<^verbatim>\<open>v[i]\<close> on a string: IndexError when out of range.\<close>

definition char_at :: "string \<Rightarrow> nat \<Rightarrow> exn + char" where
  "char_at v i = (if i < length v then Inr (v ! i) else Inl IndexError)"

text \<open>\<^verbatim>\<open>int(c)\<close> on a one-character string: the digit, else ValueError.\<close>

definition int_of_char :: "char \<Rightarrow> exn + int" where
  "int_of_char c =
     (let n = (of_char c :: nat)
      in if 48 \<le> n \<and> n \<le> 57 then Inr (int n - 48) else Inl ValueError)"

text \<open>\<^verbatim>\<open>get_process=lambda v: int(v[i])\<close>.\<close>

definition int_at :: "nat \<Rightarrow> string \<Rightarrow> exn + int" where
  "int_at i v = (case char_at v i of Inl e \<Rightarrow> Inl e | Inr c \<Rightarrow> int_of_char c)"

definition status_field :: "ips \<Rightarrow> nat \<Rightarrow> int act" where
  "status_field self i w =
     (case ask_status self w of
        (Inl e, w') \<Rightarrow> (Inl e, w')
      | (Inr v, w') \<Rightarrow> (int_at i v, w'))"

text \<open>
  Modelled from the spec: \<^verbatim>\<open>Instrument.control\<close> and \<^verbatim>\<open>Instrument.measurement\<close> are
  defined in \<^verbatim>\<open>pymeasure/instruments/instrument.py\<close>, which is not among the files
  embedded here. A read sends the query, decodes the reply with
  \<^verbatim>\<open>get_process\<close> and, with \<^verbatim>\<open>map_values\<close>, looks the code up in the inverted
  \<^verbatim>\<open>values\<close> dictionary ("decoding failures (non-numeric payload, out-of-range code)
  are reported as a typed decode error, never silently defaulted": a missing key is a
  KeyError). A write passes the value through the validator, maps it through
  \<^verbatim>\<open>values\<close> and sends \<^verbatim>\<open>set_command % value\<close>.
\<close>

definition lookup :: "('k \<times> 'v) list \<Rightarrow> 'k \<Rightarrow> exn + 'v" where
  "lookup d k = (case map_of d k of None \<Rightarrow> Inl KeyError | Some v \<Rightarrow> Inr v)"

definition inverse_of :: "('k \<times> 'v) list \<Rightarrow> ('v \<times> 'k) list" where
  "inverse_of d = map (\<lambda>(k, v). (v, k)) d"

definition mapped_status_field :: "ips \<Rightarrow> nat \<Rightarrow> (string \<times> int) list \<Rightarrow> string act" where
  "mapped_status_field self i vals w =
     (case status_field self i w of
        (Inl e, w') \<Rightarrow> (Inl e, w')
      | (Inr c, w') \<Rightarrow> (lookup (inverse_of vals) c, w'))"

subsection \<open>The properties\<close>

definition control_mode_values :: "(string \<times> int) list" where
  "control_mode_values = [(''LL'', 0), (''RL'', 1), (''LU'', 2), (''RU'', 3)]"

definition activity_values :: "(string \<times> int) list" where
  "activity_values = [(''hold'', 0), (''to setpoint'', 1), (''to zero'', 2), (''clamp'', 4)]"

definition sweep_status_values :: "(string \<times> int) list" where
  "sweep_status_values =
     [(''at rest'', 0), (''sweeping'', 1), (''sweep limiting'', 2),
      (''sweeping & sweep limiting'', 3)]"

text \<open>
  \<^verbatim>\<open>control_mode = Instrument.control("X", "$C%d", ..., validator=strict_discrete_set,
  values={...}, map_values=True)\<close>: a value that is not a key is refused by the validator
  with a ValueError.
\<close>

definition set_control_mode :: "ips \<Rightarrow> string \<Rightarrow> unit act" where
  "set_control_mode self v =
     (case map_of control_mode_values v of
        None \<Rightarrow> raise ValueError
      | Some c \<Rightarrow> send self (WriteI ''$C%d'' c))"

definition demand_field :: "ips \<Rightarrow> real act" where
  "demand_field self = ask_number self ''R7''"

definition persistent_field :: "ips \<Rightarrow> real act" where
  "persistent_field self = ask_number self ''R18''"

definition switch_heater_status :: "ips \<Rightarrow> int act" where
  "switch_heater_status self = status_field self 8"

definition set_switch_heater_status :: "ips \<Rightarrow> int \<Rightarrow> unit act" where
  "set_switch_heater_status self v = send self (WriteI ''$H%d'' v)"

definition field_setpoint :: "ips \<Rightarrow> real act" where
  "field_setpoint self = ask_number self ''R8''"

text \<open>
  \<^verbatim>\<open>field_setpoint = Instrument.control("R8", "$J%f", ..., validator=truncated_range,
  values=_FIELD_RANGE)\<close>: the validator is given the list object of the class.
\<close>

definition set_field_setpoint :: "ips \<Rightarrow> real \<Rightarrow> unit act" where
  "set_field_setpoint self v w =
     (case truncated_range (ctx self) v (FIELD_RANGE w) of
        Inl e \<Rightarrow> (Inl e, w)
      | Inr v' \<Rightarrow> send self (WriteF ''$J%f'' v') w)"

definition set_sweep_rate :: "ips \<Rightarrow> real \<Rightarrow> unit act" where
  "set_sweep_rate self v = send self (WriteF ''$T%f'' v)"

definition activity :: "ips \<Rightarrow> string act" where
  "activity self = mapped_status_field self 4 activity_values"

definition set_activity :: "ips \<Rightarrow> string \<Rightarrow> unit act" where
  "set_activity self v =
     (case lookup activity_values v of
        Inl e \<Rightarrow> raise e
      | Inr c \<Rightarrow> send self (WriteI ''$A%d'' c))"

definition sweep_status :: "ips \<Rightarrow> string act" where
  "sweep_status self = mapped_status_field self 11 sweep_status_values"

text \<open>The \<^verbatim>\<open>field\<close> property: the effective field.\<close>

definition field :: "ips \<Rightarrow> real act" where
  "field self =
     bind (switch_heater_status self) (\<lambda>sw_heater.
       if sw_heater = 0 \<or> sw_heater = 2 then persistent_field self
       else if sw_heater = 1 then demand_field self
       else demand_field self)"

subsection \<open>Construction\<close>

text \<open>
  The \<^verbatim>\<open>field_range\<close> argument: a number, a list or tuple, or anything else (which
  \<^verbatim>\<open>__init__\<close> ignores).
\<close>

datatype range_arg = Number real | Sequence "real list" | Other

text \<open>
  \<^verbatim>\<open>__init__(self, resourceName, clear_buffer, switch_heater_delay, field_range)\<close>.
  \<^verbatim>\<open>self._SWITCH_HEATER_DELAY = ...\<close> creates an attribute of the instance;
  \<^verbatim>\<open>self._FIELD_RANGE[:] = ...\<close> finds the list of the class and replaces its contents.
\<close>

definition init :: "env \<Rightarrow> bool \<Rightarrow> real option \<Rightarrow> range_arg option \<Rightarrow> world \<Rightarrow> ips \<times> world" where
  "init e clear_buffer switch_heater_delay field_range w =
     (let self = \<lparr>ctx = e, inst_SWITCH_HEATER_DELAY = switch_heater_delay\<rparr>;
          w1 = (case field_range of
                  None \<Rightarrow> w
                | Some (Number r) \<Rightarrow> w\<lparr>FIELD_RANGE := [- r, r]\<rparr>
                | Some (Sequence rs) \<Rightarrow> w\<lparr>FIELD_RANGE := rs\<rparr>
                | Some Other \<Rightarrow> w);
          w2 = (if clear_buffer then emit Clear w1 else w1)
      in (self, w2))"

text \<open>The world when the module has just been loaded: \<^verbatim>\<open>_FIELD_RANGE = [-16, 16]\<close>.\<close>

definition fresh :: world where
  "fresh = \<lparr>trace = [], FIELD_RANGE = [-16, 16]\<rparr>"

subsection \<open>Control\<close>

definition enable_control :: "ips \<Rightarrow> unit act" where
  "enable_control self =
     bind (set_control_mode self ''RU'') (\<lambda>_.
     bind (activity self) (\<lambda>a.
     bind (if a = ''clamp'' then set_activity self ''hold'' else ret ()) (\<lambda>_.
     bind (field self) (\<lambda>f.
       if f = 0 then set_switch_heater_status self 1 else ret ()))))"

definition disable_control :: "ips \<Rightarrow> unit act" where
  "disable_control self =
     bind (field self) (\<lambda>f.
       if \<not> f = 0
       then raise (MagnetError ''IPS 120-10: field not at 0T; cannot disable the supply. '')
       else
         bind (set_switch_heater_status self 0) (\<lambda>_.
         bind (set_activity self ''clamp'') (\<lambda>_.
         set_control_mode self ''LU'')))"

subsection \<open>Waiting for the magnet to be at rest\<close>

text \<open>
  The \<^verbatim>\<open>try: status = self.sweep_status / except ValueError: error_ct += 1\<close> of the
  loop: the new \<open>(error_ct, status)\<close>, or the exception that is not caught.
\<close>

definition try_status ::
  "exn + string \<Rightarrow> int \<Rightarrow> string option \<Rightarrow> exn + (int \<times> string option)" where
  "try_status r error_ct status =
     (case r of
        Inr s \<Rightarrow> Inr (error_ct, Some s)
      | Inl e \<Rightarrow> if is_ValueError e then Inr (error_ct + 1, status) else Inl e)"

text \<open>
  The loop of \<^verbatim>\<open>wait_for_idle\<close>. \<open>error_ct\<close> and \<open>status\<close> are the loop's variables
  (\<open>status\<close> keeps its last value when a query fails); \<open>should_stop\<close> is asked after the
  history so far. \<open>max_errors\<close> and \<open>max_wait_time\<close> are \<open>None\<close> or a number.
\<close>

partial_function (option) wait_loop ::
  "ips \<Rightarrow> real \<Rightarrow> int option \<Rightarrow> real option \<Rightarrow> (event list \<Rightarrow> bool) \<Rightarrow> real \<Rightarrow>
   int \<Rightarrow> string option \<Rightarrow> world \<Rightarrow> ((exn + unit) \<times> world) option"
where
  "wait_loop self delay max_errors max_wait_time should_stop start_time error_ct status w =
     (case sleep delay w of
        (Inl e, w1) \<Rightarrow> Some (Inl e, w1)
      | (Inr u, w1) \<Rightarrow>
          (case sweep_status self w1 of (r, w2) \<Rightarrow>
             (case try_status r error_ct status of
                Inl e \<Rightarrow> Some (Inl e, w2)
              | Inr (error_ct', status') \<Rightarrow>
                  if status' = Some ''at rest'' then Some (Inr (), w2)
                  else if should_stop (trace w2) then Some (Inr (), w2)
                  else if (case max_errors of None \<Rightarrow> False | Some m \<Rightarrow> error_ct' > m)
                    then Some (Inl (MagnetError
                      ''IPS 120-10: Too many exceptions occurred during getting IPS status.''), w2)
                  else if (case max_wait_time of None \<Rightarrow> False
                           | Some t \<Rightarrow> clock (ctx self) (trace w2) - start_time > t)
                    then Some (Inl (TimeoutError
                      ''IPS 120-10: Magnet not idle within max wait time.''), w2)
                  else wait_loop self delay max_errors max_wait_time should_stop start_time
                         error_ct' status' w2)))"

definition wait_for_idle ::
  "ips \<Rightarrow> real \<Rightarrow> int option \<Rightarrow> real option \<Rightarrow> (event list \<Rightarrow> bool) \<Rightarrow> unit proc" where
  "wait_for_idle self delay max_errors max_wait_time should_stop w =
     wait_loop self delay max_errors max_wait_time should_stop
       (clock (ctx self) (trace w)) 0 None w"

text \<open>\<^verbatim>\<open>self.wait_for_idle()\<close>: delay 1, at most 10 errors, no time limit, never stopped.\<close>

definition wait_for_idle_default :: "ips \<Rightarrow> unit proc" where
  "wait_for_idle_default self = wait_for_idle self 1 (Some 10) None (\<lambda>h. False)"

subsection \<open>Persistent mode\<close>

definition enable_persistent_mode :: "ips \<Rightarrow> unit proc" where
  "enable_persistent_mode self =
     pbind (lift (sweep_status self)) (\<lambda>st.
       if \<not> st = ''at rest''
       then lift (raise (MagnetError
              ''IPS 120-10: magnet not at rest; cannot enable persistent mode''))
       else
         pbind (lift (switch_heater_status self)) (\<lambda>switch_status.
           if switch_status = 0 \<or> switch_status = 2 then lift (ret ())
           else if switch_status = 1 then
             pbind (lift (set_activity self ''hold'')) (\<lambda>_.
             pbind (lift (set_switch_heater_status self 0)) (\<lambda>_.
             pbind (lift (sleep (SWITCH_HEATER_DELAY self))) (\<lambda>_.
             pbind (lift (set_activity self ''to zero'')) (\<lambda>_.
             wait_for_idle_default self))))
           else lift (raise (SwitchHeaterStatusError switch_status))))"

text \<open>
  \<^verbatim>\<open>if not self.field == self.field_setpoint: self.field_setpoint = self.field\<close>: the
  field is read, then the set-point, and the field is read again for the assignment.
\<close>

definition reconcile_setpoint :: "ips \<Rightarrow> unit act" where
  "reconcile_setpoint self =
     bind (field self) (\<lambda>f.
     bind (field_setpoint self) (\<lambda>sp.
       if \<not> f = sp
       then bind (field self) (\<lambda>f'. set_field_setpoint self f')
       else ret ()))"

definition disable_persistent_mode :: "ips \<Rightarrow> unit proc" where
  "disable_persistent_mode self =
     pbind (lift (sweep_status self)) (\<lambda>st.
       if \<not> st = ''at rest''
       then lift (raise (MagnetError
              ''IPS 120-10: magnet not at rest; cannot disable persistent mode''))
       else
         pbind (lift (reconcile_setpoint self)) (\<lambda>_.
         pbind (lift (switch_heater_status self)) (\<lambda>switch_status.
           if switch_status = 1 then lift (ret ())
           else if switch_status = 0 \<or> switch_status = 2 then
             pbind (lift (set_activity self ''to setpoint'')) (\<lambda>_.
             pbind (wait_for_idle_default self) (\<lambda>_.
             pbind (lift (set_activity self ''hold'')) (\<lambda>_.
             pbind (lift (set_switch_heater_status self 1)) (\<lambda>_.
             lift (sleep (SWITCH_HEATER_DELAY self))))))
           else lift (raise (SwitchHeaterStatusError switch_status)))))"

subsection \<open>Changing the field\<close>

text \<open>
  \<^verbatim>\<open>set_field(self, field, sweep_rate=None, persistent_mode_control=True)\<close>. A switch
  status other than 0, 1 or 2 matches neither branch and the method goes on.
\<close>

definition set_field :: "ips \<Rightarrow> real \<Rightarrow> real option \<Rightarrow> bool \<Rightarrow> unit proc" where
  "set_field self fld sweep_rate persistent_mode_control =
     pbind (lift (field self)) (\<lambda>f.
       if f = fld then lift (ret ())
       else
         pbind (lift (switch_heater_status self)) (\<lambda>switch_status.
         pbind (if switch_status = 1 then lift (ret ())
                else if switch_status = 0 \<or> switch_status = 2 then
                  (if persistent_mode_control then disable_persistent_mode self
                   else lift (raise (MagnetError
                     ''IPS 120-10: magnet in persistent mode and control of persistent mode not allowed'')))
                else lift (ret ())) (\<lambda>_.
         pbind (case sweep_rate of
                  Some r \<Rightarrow> lift (set_sweep_rate self r)
                | None \<Rightarrow> lift (ret ())) (\<lambda>_.
         pbind (if fld = 0 then lift (set_activity self ''to zero'')
                else lift (bind (set_activity self ''to setpoint'') (\<lambda>_.
                           set_field_setpoint self fld))) (\<lambda>_.
         pbind (wait_for_idle_default self) (\<lambda>_.
         pbind (lift (sleep 10)) (\<lambda>_.
           if persistent_mode_control \<and> fld \<noteq> 0 then enable_persistent_mode self
           else lift (ret ()))))))))"

text \<open>
  \<^verbatim>\<open>train_magnet\<close>: the \<^verbatim>\<open>for\<close> loop over the scheme, then \<^verbatim>\<open>self.set_field(0)\<close>.
\<close>

fun train_magnet :: "ips \<Rightarrow> (real \<times> real) list \<Rightarrow> unit proc" where
  "train_magnet self [] = set_field self 0 None True"
| "train_magnet self ((fld, rate) # rest) =
     pbind (set_field self fld (Some rate) False) (\<lambda>_. train_magnet self rest)"

subsection \<open>What a call sends\<close>

text \<open>
  \<open>extends P w w'\<close>: the world \<open>w'\<close> has the field range of \<open>w\<close>, and its trace is the
  trace of \<open>w\<close> followed by events that all satisfy \<open>P\<close>.
\<close>

definition extends :: "(event \<Rightarrow> bool) \<Rightarrow> world \<Rightarrow> world \<Rightarrow> bool" where
  "extends P w w' \<longleftrightarrow>
     FIELD_RANGE w' = FIELD_RANGE w \<and>
     take (length (trace w)) (trace w') = trace w \<and>
     list_all P (drop (length (trace w)) (trace w'))"

text \<open>
  \<open>act_ext R P m\<close>: started with field range \<open>R\<close>, the action \<open>m\<close> only appends events
  that satisfy \<open>P\<close>. \<open>proc_ext R P m\<close>: the same for a procedure, when it returns.
\<close>

definition act_ext :: "real list \<Rightarrow> (event \<Rightarrow> bool) \<Rightarrow> 'a act \<Rightarrow> bool" where
  "act_ext R P m \<longleftrightarrow> (\<forall>w. FIELD_RANGE w = R \<longrightarrow> extends P w (snd (m w)))"

definition proc_ext :: "real list \<Rightarrow> (event \<Rightarrow> bool) \<Rightarrow> 'a proc \<Rightarrow> bool" where
  "proc_ext R P m \<longleftrightarrow>
     (\<forall>w r w'. FIELD_RANGE w = R \<longrightarrow> m w = Some (r, w') \<longrightarrow> extends P w w')"

definition is_ask :: "event \<Rightarrow> bool" where
  "is_ask e \<longleftrightarrow> (case e of Ask c \<Rightarrow> True | _ \<Rightarrow> False)"

definition is_poll :: "event \<Rightarrow> bool" where
  "is_poll e \<longleftrightarrow> (case e of Ask c \<Rightarrow> True | Sleep d \<Rightarrow> True | _ \<Rightarrow> False)"

text \<open>The writes of the field set-point among the events of a trace.\<close>

definition is_setpoint_write :: "event \<Rightarrow> bool" where
  "is_setpoint_write e \<longleftrightarrow> (case e of WriteF f x \<Rightarrow> f = ''$J%f'' | _ \<Rightarrow> False)"

definition setpoint_writes :: "event list \<Rightarrow> event list" where
  "setpoint_writes evs = filter is_setpoint_write evs"

text \<open>The writes of the switch heater among the events of a trace.\<close>

definition is_heater_write :: "event \<Rightarrow> bool" where
  "is_heater_write e \<longleftrightarrow> (case e of WriteI f n \<Rightarrow> f = ''$H%d'' | _ \<Rightarrow> False)"

text \<open>
  \<open>validated self R e\<close>: if \<open>e\<close> is a write of the field set-point, its value is one that
  the range validator returns for the field range \<open>R\<close>.
\<close>

definition validated :: "ips \<Rightarrow> real list \<Rightarrow> event \<Rightarrow> bool" where
  "validated self R e \<longleftrightarrow>
     (\<forall>x. e = WriteF ''$J%f'' x \<longrightarrow> (\<exists>u. truncated_range (ctx self) u R = Inr x))"

text \<open>The events of \<open>k\<close> turns of the polling loop.\<close>

definition polls :: "real \<Rightarrow> nat \<Rightarrow> event list" where
  "polls delay k = concat (replicate k [Sleep delay, Ask ''X''])"

text \<open>
  The polling loop seen from outside: \<open>reply_at self w delay k\<close> is what the status query
  of turn \<open>k\<close> (counted from 0) returns when \<open>wait_for_idle\<close> is started in world \<open>w\<close>,
  and \<open>errors_before self w delay k\<close> is the number of the first \<open>k\<close> queries that fail.
\<close>

definition reply_at :: "ips \<Rightarrow> world \<Rightarrow> real \<Rightarrow> nat \<Rightarrow> exn + string" where
  "reply_at self w delay k =
     fst (sweep_status self (w\<lparr>trace := trace w @ polls delay k @ [Sleep delay]\<rparr>))"

primrec errors_before :: "ips \<Rightarrow> world \<Rightarrow> real \<Rightarrow> nat \<Rightarrow> nat" where
  "errors_before self w delay 0 = 0"
| "errors_before self w delay (Suc k) =
     errors_before self w delay k +
       (case reply_at self w delay k of Inl e \<Rightarrow> 1 | Inr s \<Rightarrow> 0)"

subsection \<open>A simulated supply\<close>

text \<open>
  A device to run the driver on: it keeps its registers, ramps at once (the sweep status
  it reports is always 0), lets the output follow the set-point while the activity is
  "to setpoint" and go to zero on "to zero", and freezes the persistent field when the
  switch heater goes off. Every other command is ignored.
\<close>

record regs =
  heater :: int
  act_code :: int
  setpoint :: real
  demand :: real
  persistent :: real

fun sim_step :: "regs \<Rightarrow> event \<Rightarrow> regs" where
  "sim_step r (WriteI f n) =
     (if f = ''$H%d'' then
        r\<lparr>heater := n,
          persistent := (if heater r = 1 \<and> n \<noteq> 1 then demand r else persistent r)\<rparr>
      else if f = ''$A%d'' then
        r\<lparr>act_code := n,
          demand := (if n = 1 then setpoint r else if n = 2 then 0 else demand r)\<rparr>
      else r)"
| "sim_step r (WriteF f x) =
     (if f = ''$J%f'' then
        r\<lparr>setpoint := x, demand := (if act_code r = 1 then x else demand r)\<rparr>
      else r)"
| "sim_step r (Ask c) = r"
| "sim_step r (Sleep d) = r"
| "sim_step r Clear = r"

definition sim_regs :: "regs \<Rightarrow> event list \<Rightarrow> regs" where
  "sim_regs r0 h = foldl sim_step r0 h"

definition digit :: "int \<Rightarrow> char" where
  "digit n = ''0123456789'' ! nat n"

definition sim_status :: "regs \<Rightarrow> string" where
  "sim_status r = ''X00A'' @ [digit (act_code r)] @ ''C3H'' @ [digit (heater r)] @ ''M00P00''"

definition sim_number :: "regs \<Rightarrow> string \<Rightarrow> exn + real" where
  "sim_number r c =
     (if c = ''R7'' then Inr (demand r)
      else if c = ''R18'' then Inr (persistent r)
      else if c = ''R8'' then Inr (setpoint r)
      else Inl (ChannelError ''no such register''))"

text \<open>A clock on which a sleep lasts exactly as long as asked and nothing else takes time.\<close>

fun duration :: "event \<Rightarrow> real" where
  "duration (Sleep d) = d"
| "duration e = 0"

definition sleep_clock :: "event list \<Rightarrow> real" where
  "sleep_clock h = sum_list (map duration h)"

text \<open>
  Two range validators for the simulated supply. \<open>truncating\<close> does what the name
  \<^verbatim>\<open>truncated_range\<close> says: a value outside \<^verbatim>\<open>[min(values), max(values)]\<close> is
  replaced by the nearest bound. \<open>rejecting\<close> refuses such a value with a ValueError.
  Both raise ValueError on an empty \<^verbatim>\<open>values\<close>, as \<^verbatim>\<open>min\<close> does.
\<close>

definition truncating :: "real \<Rightarrow> real list \<Rightarrow> exn + real" where
  "truncating v vs =
     (if vs = [] then Inl ValueError
      else if Min (set vs) \<le> v \<and> v \<le> Max (set vs) then Inr v
      else if v > Max (set vs) then Inr (Max (set vs))
      else Inr (Min (set vs)))"

definition rejecting :: "real \<Rightarrow> real list \<Rightarrow> exn + real" where
  "rejecting v vs =
     (if vs = [] then Inl ValueError
      else if Min (set vs) \<le> v \<and> v \<le> Max (set vs) then Inr v
      else Inl ValueError)"

definition sim :: "regs \<Rightarrow> (real \<Rightarrow> real list \<Rightarrow> exn + real) \<Rightarrow> env" where
  "sim r0 validator =
     \<lparr>status_reply = (\<lambda>h. Inr (sim_status (sim_regs r0 h))),
      number_reply = (\<lambda>h c. sim_number (sim_regs r0 h) c),
      write_fault = (\<lambda>h e. None),
      clock = sleep_clock,
      truncated_range = validator\<rparr>"

text \<open>The supply in demand mode at 0 T, and in persistent mode at 5 T.\<close>

definition regs_demand :: regs where
  "regs_demand = \<lparr>heater = 1, act_code = 0, setpoint = 0, demand = 0, persistent = 0\<rparr>"

definition regs_persistent :: regs where
  "regs_persistent = \<lparr>heater = 0, act_code = 0, setpoint = 5, demand = 0, persistent = 5\<rparr>"

definition bench :: "regs \<Rightarrow> ips" where
  "bench r0 = \<lparr>ctx = sim r0 truncating, inst_SWITCH_HEATER_DELAY = None\<rparr>"

text \<open>
  Two more starting points: a supply whose switch heater status reads 5, and one in
  demand mode held at 3 T with its set-point at 5 T.
\<close>

definition regs_fault :: regs where
  "regs_fault = \<lparr>heater = 5, act_code = 0, setpoint = 0, demand = 0, persistent = 0\<rparr>"

definition regs_held :: regs where
  "regs_held = \<lparr>heater = 1, act_code = 0, setpoint = 5, demand = 3, persistent = 0\<rparr>"

text \<open>A supply in persistent mode at 5 T whose set-point reads 3 T.\<close>

definition regs_drifted :: regs where
  "regs_drifted = \<lparr>heater = 0, act_code = 0, setpoint = 3, demand = 0, persistent = 5\<rparr>"

text \<open>The world with a given trace and the field range of the class as loaded.\<close>

definition world_at :: "event list \<Rightarrow> world" where
  "world_at h = \<lparr>trace = h, FIELD_RANGE = [-16, 16]\<rparr>"

text \<open>
  A device whose first \<open>n\<close> status replies are the string \<open>s\<close> and whose later replies
  report the magnet at rest.
\<close>

definition count_asks :: "event list \<Rightarrow> nat" where
  "count_asks h = length (filter is_ask h)"

definition garbled :: "nat \<Rightarrow> string \<Rightarrow> env" where
  "garbled n s =
     \<lparr>status_reply = (\<lambda>h. if count_asks h < n then Inr s else Inr ''X00A0C3H1M00P00''),
      number_reply = (\<lambda>h c. Inl (ChannelError ''no such register'')),
      write_fault = (\<lambda>h e. None),
      clock = sleep_clock,
      truncated_range = truncating\<rparr>"

definition probe :: "nat \<Rightarrow> string \<Rightarrow> ips" where
  "probe n s = \<lparr>ctx = garbled n s, inst_SWITCH_HEATER_DELAY = None\<rparr>"

text \<open>
  A device that answers its status queries from a list of replies, and reports the magnet
  at rest once the list is used up; and an instance whose device answers with a garbled
  reply, then a sweeping one, then a garbled one.
\<close>

definition scripted :: "string list \<Rightarrow> env" where
  "scripted rs =
     \<lparr>status_reply = (\<lambda>h. if count_asks h < length rs then Inr (rs ! count_asks h)
                           else Inr ''X00A0C3H1M00P00''),
      number_reply = (\<lambda>h c. Inl (ChannelError ''no such register'')),
      write_fault = (\<lambda>h e. None),
      clock = sleep_clock,
      truncated_range = truncating\<rparr>"

definition flaky :: ips where
  "flaky = \<lparr>ctx = scripted [''X00A1C3H1M0?P00'', ''X00A1C3H1M01P00'', ''X00A1C3H1M0?P00''],
            inst_SWITCH_HEATER_DELAY = None\<rparr>"



text \<open>The simulated supply behind a range validator that refuses.\<close>

definition strict :: "regs \<Rightarrow> ips" where
  "strict r0 = \<lparr>ctx = sim r0 rejecting, inst_SWITCH_HEATER_DELAY = None\<rparr>"

text \<open>
  Two instances made one after the other: the first with the defaults, the second with
  \<^verbatim>\<open>switch_heater_delay=3, field_range=5\<close>.
\<close>

definition first_instance :: "ips \<times> world" where
  "first_instance = init (sim regs_demand truncating) True None None fresh"

definition second_instance :: "ips \<times> world" where
  "second_instance =
     init (sim regs_demand truncating) True (Some 3) (Some (Number 5)) (snd first_instance)"

section \<open>Properties\<close>

subsection \<open>Traces only grow\<close>

lemma extendsI:
  "FIELD_RANGE w' = FIELD_RANGE w \<Longrightarrow> trace w' = trace w @ evs \<Longrightarrow> list_all P evs \<Longrightarrow> extends P w w'"
  by (simp add: extends_def)

lemma extendsE:
  assumes "extends P w w'"
  obtains evs where "FIELD_RANGE w' = FIELD_RANGE w" "trace w' = trace w @ evs" "list_all P evs"
proof -
  from assms have "trace w' = trace w @ drop (length (trace w)) (trace w')"
    by (metis append_take_drop_id extends_def)
  with assms that show thesis by (simp add: extends_def)
qed

lemma extends_refl: "extends P w w"
  by (rule extendsI [where evs = "[]"]) simp_all

lemma extends_trans:
  assumes "extends P w w1" and "extends P w1 w2"
  shows "extends P w w2"
proof -
  from assms(1) obtain evs where a: "FIELD_RANGE w1 = FIELD_RANGE w"
    "trace w1 = trace w @ evs" "list_all P evs" by (rule extendsE)
  from assms(2) obtain evs' where b: "FIELD_RANGE w2 = FIELD_RANGE w1"
    "trace w2 = trace w1 @ evs'" "list_all P evs'" by (rule extendsE)
  show ?thesis
    by (rule extendsI [where evs = "evs @ evs'"]) (simp_all add: a b)
qed

lemma extends_mono: "extends P w w' \<Longrightarrow> (\<And>e. P e \<Longrightarrow> Q e) \<Longrightarrow> extends Q w w'"
  by (erule extendsE) (rule extendsI, auto simp: list_all_iff)

lemma extends_emit: "P e \<Longrightarrow> extends P w (emit e w)"
  by (rule extendsI [where evs = "[e]"]) (simp_all add: emit_def)

lemma extends_writes: "extends (\<lambda>e. \<not> is_write e) w w' \<Longrightarrow> writes_of (trace w') = writes_of (trace w)"
  by (erule extendsE) (simp add: writes_of_def list_all_iff)

lemma extends_range: "extends P w w' \<Longrightarrow> FIELD_RANGE w' = FIELD_RANGE w"
  by (simp add: extends_def)

lemma act_extD: "act_ext R P m \<Longrightarrow> FIELD_RANGE (w::world) = R \<Longrightarrow> m w = (r, w') \<Longrightarrow> extends P w w'"
  by (auto simp: act_ext_def dest: spec [where x = w])

lemma proc_extD:
  "proc_ext R P m \<Longrightarrow> FIELD_RANGE (w::world) = R \<Longrightarrow> m w = Some (r, w') \<Longrightarrow> extends P w w'"
  by (auto simp: proc_ext_def)

lemma act_ext_ret: "act_ext R P (ret x)"
  by (simp add: act_ext_def ret_def extends_refl)

lemma act_ext_raise: "act_ext R P (raise e)"
  by (simp add: act_ext_def raise_def extends_refl)

lemma act_ext_bind:
  assumes "act_ext R P m" and "\<And>x. act_ext R P (f x)"
  shows "act_ext R P (bind m f)"
  unfolding act_ext_def
proof (intro allI impI)
  fix w :: world
  assume R: "FIELD_RANGE w = R"
  obtain r w1 where m: "m w = (r, w1)" by (cases "m w")
  have 1: "extends P w w1" using assms(1) R m by (rule act_extD)
  show "extends P w (snd (bind m f w))"
  proof (cases r)
    case (Inl e)
    with m 1 show ?thesis by (simp add: bind_def)
  next
    case (Inr x)
    obtain r2 w2 where f: "f x w1 = (r2, w2)" by (cases "f x w1")
    have "FIELD_RANGE w1 = R" using 1 R by (simp add: extends_range)
    with assms(2) have "extends P w1 w2" using f by (rule act_extD)
    with 1 have "extends P w w2" by (rule extends_trans)
    with m Inr f show ?thesis by (simp add: bind_def)
  qed
qed

lemma proc_ext_lift: "act_ext R P m \<Longrightarrow> proc_ext R P (lift m)"
  by (auto simp: proc_ext_def lift_def dest: act_extD)

lemma proc_ext_pbind:
  assumes "proc_ext R P m" and "\<And>x. proc_ext R P (f x)"
  shows "proc_ext R P (pbind m f)"
  unfolding proc_ext_def
proof (intro allI impI)
  fix w :: world and r w'
  assume R: "FIELD_RANGE w = R" and a: "pbind m f w = Some (r, w')"
  then obtain r1 w1 where m: "m w = Some (r1, w1)"
    by (cases "m w") (auto simp: pbind_def)
  have 1: "extends P w w1" using assms(1) R m by (rule proc_extD)
  show "extends P w w'"
  proof (cases r1)
    case (Inl e)
    with a m 1 show ?thesis by (simp add: pbind_def)
  next
    case (Inr x)
    with a m have f: "f x w1 = Some (r, w')" by (simp add: pbind_def)
    have "FIELD_RANGE w1 = R" using 1 R by (simp add: extends_range)
    with assms(2) have "extends P w1 w'" using f by (rule proc_extD)
    with 1 show ?thesis by (rule extends_trans)
  qed
qed

lemma act_ext_mono: "act_ext R P m \<Longrightarrow> (\<And>e. P e \<Longrightarrow> Q e) \<Longrightarrow> act_ext R Q m"
  unfolding act_ext_def by (blast intro: extends_mono)

lemma proc_ext_mono: "proc_ext R P m \<Longrightarrow> (\<And>e. P e \<Longrightarrow> Q e) \<Longrightarrow> proc_ext R Q m"
  unfolding proc_ext_def by (blast intro: extends_mono)

lemma act_ext_sleep: "P (Sleep d) \<Longrightarrow> act_ext R P (sleep d)"
  by (simp add: act_ext_def sleep_def extends_refl extends_emit)

lemma act_ext_ask_status: "P (Ask ''X'') \<Longrightarrow> act_ext R P (ask_status self)"
  by (simp add: act_ext_def ask_status_def extends_emit)

lemma act_ext_ask_number: "P (Ask c) \<Longrightarrow> act_ext R P (ask_number self c)"
  by (simp add: act_ext_def ask_number_def extends_emit)

lemma act_ext_send: "P e \<Longrightarrow> act_ext R P (send self e)"
  by (simp add: act_ext_def send_def extends_emit split: option.split)

lemma act_ext_status_field: "P (Ask ''X'') \<Longrightarrow> act_ext R P (status_field self i)"
  by (simp add: act_ext_def status_field_def ask_status_def extends_emit split: sum.split)

lemma act_ext_mapped_status_field:
  "P (Ask ''X'') \<Longrightarrow> act_ext R P (mapped_status_field self i vals)"
  by (simp add: act_ext_def mapped_status_field_def status_field_def ask_status_def
      extends_emit split: sum.split)

lemma act_ext_switch_heater_status: "act_ext R is_ask (switch_heater_status self)"
  by (simp add: switch_heater_status_def act_ext_status_field is_ask_def)

lemma act_ext_sweep_status: "act_ext R is_ask (sweep_status self)"
  by (simp add: sweep_status_def act_ext_mapped_status_field is_ask_def)

lemma act_ext_field: "act_ext R is_ask (field self)"
  unfolding field_def
  by (intro act_ext_bind act_ext_switch_heater_status)
     (simp add: persistent_field_def demand_field_def act_ext_ask_number is_ask_def)

lemma act_ext_field_setpoint: "act_ext R is_ask (field_setpoint self)"
  by (simp add: field_setpoint_def act_ext_ask_number is_ask_def)

lemma is_ask_not_write: "is_ask e \<Longrightarrow> \<not> is_write e"
  by (cases e) (simp_all add: is_ask_def)

lemma is_poll_not_write: "is_poll e \<Longrightarrow> \<not> is_write e"
  by (cases e) (simp_all add: is_poll_def)

lemma is_ask_poll: "is_ask e \<Longrightarrow> is_poll e"
  by (cases e) (simp_all add: is_ask_def is_poll_def)

subsection \<open>The poller only sleeps and asks\<close>

lemma wait_loop_ext:
  assumes "wait_loop self delay max_errors max_wait_time should_stop start_time error_ct status w = Some y"
  shows "extends is_poll w (snd y)"
proof (rule wait_loop.raw_induct
    [where P = "\<lambda>_ _ _ _ _ _ _ _ w y. extends is_poll w (snd y)", OF _ assms], goal_cases)
  case (1 f self delay max_errors max_wait_time should_stop start_time error_ct status w y)
  obtain r1 w1 where s: "sleep delay w = (r1, w1)" by (cases "sleep delay w")
  have "extends is_poll w w1"
    by (rule act_extD [OF act_ext_sleep refl s]) (simp add: is_poll_def)
  moreover obtain r2 w2 where q: "sweep_status self w1 = (r2, w2)"
    by (cases "sweep_status self w1")
  have "extends is_ask w1 w2" using act_ext_sweep_status refl q by (rule act_extD)
  then have "extends is_poll w1 w2" by (rule extends_mono) (rule is_ask_poll)
  ultimately have e2: "extends is_poll w w2" by (rule extends_trans)
  show ?case
  proof (cases r1)
    case (Inl e)
    with 1(2) s have "y = (Inl e, w1)" by simp
    with \<open>extends is_poll w w1\<close> show ?thesis by simp
  next
    case r1: (Inr u)
    show ?thesis
    proof (cases "try_status r2 error_ct status")
      case (Inl e)
      with 1(2) s q r1 have "y = (Inl e, w2)" by simp
      with e2 show ?thesis by simp
    next
      case (Inr p)
      obtain ec st where p: "p = (ec, st)" by (cases p)
      from 1(2) s q r1 Inr p consider
          (stop) r where "y = (r, w2)"
        | (again) "f self delay max_errors max_wait_time should_stop start_time ec st w2 = Some y"
        by (auto split: if_splits)
      then show ?thesis
      proof cases
        case stop
        with e2 show ?thesis by simp
      next
        case again
        then have "extends is_poll w2 (snd y)" by (rule 1(1))
        with e2 show ?thesis by (rule extends_trans)
      qed
    qed
  qed
qed

lemma proc_ext_wait_for_idle:
  "proc_ext R is_poll (wait_for_idle self delay max_errors max_wait_time should_stop)"
  unfolding proc_ext_def wait_for_idle_def
  by (auto dest: wait_loop_ext)

subsection \<open>Evaluation\<close>

lemma pbind_lift:
  "pbind (lift m) f w = (case m w of (Inl e, w') \<Rightarrow> Some (Inl e, w') | (Inr x, w') \<Rightarrow> f x w')"
  by (simp add: pbind_def lift_def split: prod.split sum.split)

lemma field_writes: "field self w = (r, w') \<Longrightarrow> writes_of (trace w') = writes_of (trace w)"
  by (rule extends_writes, rule extends_mono, erule act_extD [OF act_ext_field refl])
     (rule is_ask_not_write)

lemma switch_heater_status_writes:
  "switch_heater_status self w = (r, w') \<Longrightarrow> writes_of (trace w') = writes_of (trace w)"
  by (rule extends_writes, rule extends_mono,
      erule act_extD [OF act_ext_switch_heater_status refl])
     (rule is_ask_not_write)

lemmas sim_eval =
  pbind_def lift_def bind_def ret_def raise_def emit_def sleep_def ask_status_def ask_number_def
  send_def char_at_def int_of_char_def int_at_def status_field_def lookup_def inverse_of_def
  mapped_status_field_def control_mode_values_def activity_values_def sweep_status_values_def
  set_control_mode_def demand_field_def persistent_field_def switch_heater_status_def
  set_switch_heater_status_def field_setpoint_def set_field_setpoint_def set_sweep_rate_def
  activity_def set_activity_def sweep_status_def field_def SWITCH_HEATER_DELAY_def
  try_status_def wait_for_idle_def wait_for_idle_default_def wait_loop.simps
  sim_regs_def digit_def sim_status_def sim_number_def sleep_clock_def truncating_def
  sim_def regs_demand_def regs_persistent_def world_at_def bench_def fresh_def

subsection \<open>The field sequencer: requests that change nothing\<close>

text \<open>
  Claim C4. When the target equals the effective field (the persistent field when the
  switch heater status reads 0 or 2, the demand field otherwise), \<open>set_field\<close> returns
  successfully whatever the sweep rate and the persistent-mode flag are, and all it has
  sent are the two queries of the \<open>field\<close> property: no register is written.
\<close>

theorem set_field_noop:
  assumes "switch_heater_status self w = (Inr sw, w1)"
    and "(if sw = 0 \<or> sw = 2 then persistent_field self w1 else demand_field self w1) = (Inr t, w2)"
  shows "set_field self t sweep_rate persistent_mode_control w = Some (Inr (), w2) \<and>
         trace w2 = trace w @ [Ask ''X'', Ask (if sw = 0 \<or> sw = 2 then ''R18'' else ''R7'')] \<and>
         writes_of (trace w2) = writes_of (trace w)"
proof -
  have f: "field self w = (Inr t, w2)"
    using assms by (cases "sw = 0 \<or> sw = 2") (simp_all add: field_def bind_def)
  have "set_field self t sweep_rate persistent_mode_control w = Some (Inr (), w2)"
    by (simp add: set_field_def pbind_lift f lift_def ret_def)
  moreover have "trace w2 = trace w @ [Ask ''X'', Ask (if sw = 0 \<or> sw = 2 then ''R18'' else ''R7'')]"
    using assms
    by (auto simp: switch_heater_status_def status_field_def ask_status_def persistent_field_def
        demand_field_def ask_number_def emit_def split: sum.splits if_splits)
  moreover have "writes_of (trace w2) = writes_of (trace w)"
    using f by (rule field_writes)
  ultimately show ?thesis by simp
qed

theorem set_field_noop_witness:
  "switch_heater_status (bench regs_persistent) fresh = (Inr 0, emit (Ask ''X'') fresh) \<and>
   persistent_field (bench regs_persistent) (emit (Ask ''X'') fresh)
     = (Inr 5, emit (Ask ''R18'') (emit (Ask ''X'') fresh)) \<and>
   set_field (bench regs_persistent) 5 (Some 1) True fresh
     = Some (Inr (), emit (Ask ''R18'') (emit (Ask ''X'') fresh)) \<and>
   writes_of (trace (emit (Ask ''R18'') (emit (Ask ''X'') fresh))) = writes_of (trace fresh)"
proof -
  have h1: "switch_heater_status (bench regs_persistent) fresh = (Inr 0, emit (Ask ''X'') fresh)"
    by (simp add: sim_eval)
  have h2: "(if (0::int) = 0 \<or> (0::int) = 2
             then persistent_field (bench regs_persistent) (emit (Ask ''X'') fresh)
             else demand_field (bench regs_persistent) (emit (Ask ''X'') fresh))
            = (Inr 5, emit (Ask ''R18'') (emit (Ask ''X'') fresh))"
    by (simp add: sim_eval)
  have h2': "persistent_field (bench regs_persistent) (emit (Ask ''X'') fresh)
     = (Inr 5, emit (Ask ''R18'') (emit (Ask ''X'') fresh))"
    using h2 by simp
  from set_field_noop [OF h1 h2, of "Some 1" True] h1 h2' show ?thesis by blast
qed

subsection \<open>The field sequencer: the persistent-mode gate\<close>

text \<open>
  Claim C1, as stated, for every target: on the simulated supply in persistent mode at
  5 T (switch heater status 0), \<open>set_field\<close> with target 5 and without persistent-mode
  control does not fail; it returns successfully, because the target is the effective
  field.
\<close>

theorem set_field_persistent_same_target:
  "fst (switch_heater_status (bench regs_persistent) fresh) = Inr 0 \<and>
   map_option fst (set_field (bench regs_persistent) 5 (Some 1) False fresh) = Some (Inr ())"
  by (simp add: set_field_def sim_eval)

text \<open>
  Claim C1, amended: for every target different from the effective field, if the switch
  heater status then reads 0 or 2, \<open>set_field\<close> without persistent-mode control fails
  with the MagnetError "magnet in persistent mode and control of persistent mode not
  allowed", having sent queries only: no register is written.
\<close>

theorem set_field_persistent_refused:
  assumes "field self w = (Inr f, w1)" and "f \<noteq> t"
    and "switch_heater_status self w1 = (Inr sw, w2)" and "sw = 0 \<or> sw = 2"
  shows "set_field self t sweep_rate False w =
           Some (Inl (MagnetError
             ''IPS 120-10: magnet in persistent mode and control of persistent mode not allowed''), w2) \<and>
         writes_of (trace w2) = writes_of (trace w)"
proof -
  have "writes_of (trace w1) = writes_of (trace w)"
    using assms(1) by (rule field_writes)
  moreover have "writes_of (trace w2) = writes_of (trace w1)"
    using assms(3) by (rule switch_heater_status_writes)
  moreover have "set_field self t sweep_rate False w =
           Some (Inl (MagnetError
             ''IPS 120-10: magnet in persistent mode and control of persistent mode not allowed''), w2)"
    using assms by (auto simp: set_field_def pbind_lift pbind_def lift_def raise_def)
  ultimately show ?thesis by simp
qed

theorem set_field_persistent_refused_witness:
  "field (bench regs_persistent) fresh = (Inr 5, emit (Ask ''R18'') (emit (Ask ''X'') fresh)) \<and>
   (5::real) \<noteq> 3 \<and>
   switch_heater_status (bench regs_persistent) (emit (Ask ''R18'') (emit (Ask ''X'') fresh))
     = (Inr 0, emit (Ask ''X'') (emit (Ask ''R18'') (emit (Ask ''X'') fresh))) \<and>
   set_field (bench regs_persistent) 3 (Some 1) False fresh =
     Some (Inl (MagnetError
       ''IPS 120-10: magnet in persistent mode and control of persistent mode not allowed''),
       emit (Ask ''X'') (emit (Ask ''R18'') (emit (Ask ''X'') fresh))) \<and>
   writes_of (trace (emit (Ask ''X'') (emit (Ask ''R18'') (emit (Ask ''X'') fresh))))
     = writes_of (trace fresh)"
proof -
  have h1: "field (bench regs_persistent) fresh
      = (Inr 5, emit (Ask ''R18'') (emit (Ask ''X'') fresh))"
    by (simp add: sim_eval)
  have h2: "(5::real) \<noteq> 3" by simp
  have h3: "switch_heater_status (bench regs_persistent)
      (emit (Ask ''R18'') (emit (Ask ''X'') fresh))
      = (Inr 0, emit (Ask ''X'') (emit (Ask ''R18'') (emit (Ask ''X'') fresh)))"
    by (simp add: sim_eval)
  have h4: "(0::int) = 0 \<or> (0::int) = 2" by simp
  from set_field_persistent_refused [OF h1 h2 h3 h4, of "Some 1"] h1 h2 h3
  show ?thesis by blast
qed

subsection \<open>Giving up control\<close>

text \<open>
  Claim C9. With a non-zero effective field \<open>disable_control\<close> fails with a MagnetError
  and has written nothing (only the queries of the \<open>field\<close> property were sent). With the
  field at zero, on a channel whose writes do not fail, it switches the heater off,
  clamps the output and sets the control mode to local and unlocked, in that order.
\<close>

theorem disable_control_gate:
  assumes "field self w = (Inr f, w1)"
  shows "(f \<noteq> 0 \<longrightarrow>
            disable_control self w =
              (Inl (MagnetError ''IPS 120-10: field not at 0T; cannot disable the supply. ''), w1) \<and>
            writes_of (trace w1) = writes_of (trace w)) \<and>
         (f = 0 \<and> (\<forall>h e. write_fault (ctx self) h e = None) \<longrightarrow>
            disable_control self w =
              (Inr (), w1\<lparr>trace := trace w1 @
                 [WriteI ''$H%d'' 0, WriteI ''$A%d'' 4, WriteI ''$C%d'' 2]\<rparr>))"
proof (intro conjI impI)
  assume "f \<noteq> 0"
  with assms show "disable_control self w =
      (Inl (MagnetError ''IPS 120-10: field not at 0T; cannot disable the supply. ''), w1)"
    by (simp add: disable_control_def bind_def raise_def)
next
  show "writes_of (trace w1) = writes_of (trace w)"
    using assms by (rule field_writes)
next
  assume "f = 0 \<and> (\<forall>h e. write_fault (ctx self) h e = None)"
  with assms show "disable_control self w =
      (Inr (), w1\<lparr>trace := trace w1 @ [WriteI ''$H%d'' 0, WriteI ''$A%d'' 4, WriteI ''$C%d'' 2]\<rparr>)"
    by (simp add: disable_control_def bind_def set_switch_heater_status_def send_def emit_def
        set_activity_def lookup_def activity_values_def set_control_mode_def
        control_mode_values_def)
qed

theorem disable_control_gate_witness:
  "field (bench regs_persistent) fresh = (Inr 5, emit (Ask ''R18'') (emit (Ask ''X'') fresh)) \<and>
   disable_control (bench regs_persistent) fresh =
     (Inl (MagnetError ''IPS 120-10: field not at 0T; cannot disable the supply. ''),
      emit (Ask ''R18'') (emit (Ask ''X'') fresh)) \<and>
   field (bench regs_demand) fresh = (Inr 0, emit (Ask ''R7'') (emit (Ask ''X'') fresh)) \<and>
   disable_control (bench regs_demand) fresh =
     (Inr (), \<lparr>trace = [Ask ''X'', Ask ''R7'', WriteI ''$H%d'' 0, WriteI ''$A%d'' 4,
                        WriteI ''$C%d'' 2],
              FIELD_RANGE = [-16, 16]\<rparr>)"
proof -
  have h1: "field (bench regs_persistent) fresh
      = (Inr 5, emit (Ask ''R18'') (emit (Ask ''X'') fresh))"
    by (simp add: sim_eval)
  have h2: "field (bench regs_demand) fresh = (Inr 0, emit (Ask ''R7'') (emit (Ask ''X'') fresh))"
    by (simp add: sim_eval)
  have h3: "\<forall>h e. write_fault (ctx (bench regs_demand)) h e = None"
    by (simp add: bench_def sim_def)
  have w: "(emit (Ask ''R7'') (emit (Ask ''X'') fresh))
             \<lparr>trace := trace (emit (Ask ''R7'') (emit (Ask ''X'') fresh)) @
                 [WriteI ''$H%d'' 0, WriteI ''$A%d'' 4, WriteI ''$C%d'' 2]\<rparr>
           = \<lparr>trace = [Ask ''X'', Ask ''R7'', WriteI ''$H%d'' 0, WriteI ''$A%d'' 4,
                        WriteI ''$C%d'' 2],
              FIELD_RANGE = [-16, 16]\<rparr>"
    by (simp add: emit_def fresh_def)
  from disable_control_gate [OF h1] have a: "disable_control (bench regs_persistent) fresh =
     (Inl (MagnetError ''IPS 120-10: field not at 0T; cannot disable the supply. ''),
      emit (Ask ''R18'') (emit (Ask ''X'') fresh))"
    by simp
  from disable_control_gate [OF h2] h3 w have b: "disable_control (bench regs_demand) fresh =
     (Inr (), \<lparr>trace = [Ask ''X'', Ask ''R7'', WriteI ''$H%d'' 0, WriteI ''$A%d'' 4,
                        WriteI ''$C%d'' 2],
              FIELD_RANGE = [-16, 16]\<rparr>)"
    by simp
  from h1 h2 a b show ?thesis by blast
qed

lemma wait_for_idle_writes:
  "wait_for_idle self delay max_errors max_wait_time should_stop w = Some (r, w')
   \<Longrightarrow> writes_of (trace w') = writes_of (trace w)"
  by (rule extends_writes, rule extends_mono,
      erule proc_extD [OF proc_ext_wait_for_idle refl]) (rule is_poll_not_write)

lemma sweep_status_writes:
  "sweep_status self w = (r, w') \<Longrightarrow> writes_of (trace w') = writes_of (trace w)"
  by (rule extends_writes, rule extends_mono,
      erule act_extD [OF act_ext_sweep_status refl]) (rule is_ask_not_write)

subsection \<open>Entering persistent mode\<close>

text \<open>
  Claim C2. With the magnet at rest: when the switch heater status reads 0 or 2,
  \<open>enable_persistent_mode\<close> returns successfully having written nothing; when it reads 1
  (and the configured delay is not negative and the channel's writes do not fail) the
  call is exactly: write Activity = hold, write the switch heater off, sleep for the
  switch heater delay, write Activity = to zero, then one \<open>wait_for_idle\<close> with the
  default arguments, whose result is the result of the call, and these three are all the
  writes of the call; any other status raises SwitchHeaterStatusError.
\<close>

theorem enable_persistent_mode_steps:
  assumes "sweep_status self w = (Inr ''at rest'', w1)"
    and "switch_heater_status self w1 = (Inr sw, w2)"
  shows "writes_of (trace w2) = writes_of (trace w) \<and>
    (sw = 0 \<or> sw = 2 \<longrightarrow> enable_persistent_mode self w = Some (Inr (), w2)) \<and>
    (sw = 1 \<and> 0 \<le> SWITCH_HEATER_DELAY self \<and> (\<forall>h e. write_fault (ctx self) h e = None) \<longrightarrow>
       enable_persistent_mode self w =
         wait_for_idle self 1 (Some 10) None (\<lambda>h. False)
           (w2\<lparr>trace := trace w2 @
              [WriteI ''$A%d'' 0, WriteI ''$H%d'' 0, Sleep (SWITCH_HEATER_DELAY self),
               WriteI ''$A%d'' 2]\<rparr>) \<and>
       (\<forall>r w'. enable_persistent_mode self w = Some (r, w') \<longrightarrow>
          writes_of (trace w') =
            writes_of (trace w) @ [WriteI ''$A%d'' 0, WriteI ''$H%d'' 0, WriteI ''$A%d'' 2])) \<and>
    (sw \<noteq> 0 \<and> sw \<noteq> 1 \<and> sw \<noteq> 2 \<longrightarrow>
       enable_persistent_mode self w = Some (Inl (SwitchHeaterStatusError sw), w2))"
proof (intro conjI impI)
  have "writes_of (trace w1) = writes_of (trace w)"
    using assms(1) by (rule sweep_status_writes)
  moreover have "writes_of (trace w2) = writes_of (trace w1)"
    using assms(2) by (rule switch_heater_status_writes)
  ultimately show q: "writes_of (trace w2) = writes_of (trace w)" by simp
  {
    assume "sw = 0 \<or> sw = 2"
    with assms show "enable_persistent_mode self w = Some (Inr (), w2)"
      by (auto simp: enable_persistent_mode_def pbind_lift lift_def ret_def)
  }
  {
    assume "sw \<noteq> 0 \<and> sw \<noteq> 1 \<and> sw \<noteq> 2"
    with assms show "enable_persistent_mode self w = Some (Inl (SwitchHeaterStatusError sw), w2)"
      by (auto simp: enable_persistent_mode_def pbind_lift lift_def raise_def)
  }
  {
    assume a: "sw = 1 \<and> 0 \<le> SWITCH_HEATER_DELAY self \<and> (\<forall>h e. write_fault (ctx self) h e = None)"
    with assms show e: "enable_persistent_mode self w =
         wait_for_idle self 1 (Some 10) None (\<lambda>h. False)
           (w2\<lparr>trace := trace w2 @
              [WriteI ''$A%d'' 0, WriteI ''$H%d'' 0, Sleep (SWITCH_HEATER_DELAY self),
               WriteI ''$A%d'' 2]\<rparr>)"
      by (simp add: enable_persistent_mode_def pbind_lift set_activity_def lookup_def
          activity_values_def send_def emit_def set_switch_heater_status_def sleep_def
          wait_for_idle_default_def)
    show "\<forall>r w'. enable_persistent_mode self w = Some (r, w') \<longrightarrow>
          writes_of (trace w') =
            writes_of (trace w) @ [WriteI ''$A%d'' 0, WriteI ''$H%d'' 0, WriteI ''$A%d'' 2]"
    proof (intro allI impI)
      fix r w'
      assume "enable_persistent_mode self w = Some (r, w')"
      with e have "wait_for_idle self 1 (Some 10) None (\<lambda>h. False)
           (w2\<lparr>trace := trace w2 @
              [WriteI ''$A%d'' 0, WriteI ''$H%d'' 0, Sleep (SWITCH_HEATER_DELAY self),
               WriteI ''$A%d'' 2]\<rparr>) = Some (r, w')"
        by simp
      then have "writes_of (trace w') = writes_of (trace (w2\<lparr>trace := trace w2 @
              [WriteI ''$A%d'' 0, WriteI ''$H%d'' 0, Sleep (SWITCH_HEATER_DELAY self),
               WriteI ''$A%d'' 2]\<rparr>))"
        by (rule wait_for_idle_writes)
      with q show "writes_of (trace w') =
            writes_of (trace w) @ [WriteI ''$A%d'' 0, WriteI ''$H%d'' 0, WriteI ''$A%d'' 2]"
        by (simp add: writes_of_def)
    qed
  }
qed


lemmas fault_eval = sim_eval regs_fault_def

theorem enable_persistent_mode_steps_witness:
  "sweep_status (bench regs_demand) fresh = (Inr ''at rest'', emit (Ask ''X'') fresh) \<and>
   switch_heater_status (bench regs_demand) (emit (Ask ''X'') fresh)
     = (Inr 1, emit (Ask ''X'') (emit (Ask ''X'') fresh)) \<and>
   enable_persistent_mode (bench regs_demand) fresh =
     Some (Inr (), \<lparr>trace = [Ask ''X'', Ask ''X'', WriteI ''$A%d'' 0, WriteI ''$H%d'' 0, Sleep 20,
                             WriteI ''$A%d'' 2, Sleep 1, Ask ''X''],
                    FIELD_RANGE = [-16, 16]\<rparr>) \<and>
   switch_heater_status (bench regs_persistent) (emit (Ask ''X'') fresh)
     = (Inr 0, emit (Ask ''X'') (emit (Ask ''X'') fresh)) \<and>
   enable_persistent_mode (bench regs_persistent) fresh
     = Some (Inr (), emit (Ask ''X'') (emit (Ask ''X'') fresh)) \<and>
   switch_heater_status (bench regs_fault) (emit (Ask ''X'') fresh)
     = (Inr 5, emit (Ask ''X'') (emit (Ask ''X'') fresh)) \<and>
   enable_persistent_mode (bench regs_fault) fresh
     = Some (Inl (SwitchHeaterStatusError 5), emit (Ask ''X'') (emit (Ask ''X'') fresh))"
proof -
  let ?w1 = "emit (Ask ''X'') fresh"
  let ?w2 = "emit (Ask ''X'') ?w1"
  have d1: "sweep_status (bench regs_demand) fresh = (Inr ''at rest'', ?w1)"
    by (simp add: fault_eval)
  have d2: "switch_heater_status (bench regs_demand) ?w1 = (Inr 1, ?w2)"
    by (simp add: fault_eval)
  have d3: "(1::int) = 1 \<and> 0 \<le> SWITCH_HEATER_DELAY (bench regs_demand) \<and>
            (\<forall>h e. write_fault (ctx (bench regs_demand)) h e = None)"
    by (simp add: fault_eval)
  have d4: "wait_for_idle (bench regs_demand) 1 (Some 10) None (\<lambda>h. False)
           (?w2\<lparr>trace := trace ?w2 @
              [WriteI ''$A%d'' 0, WriteI ''$H%d'' 0, Sleep (SWITCH_HEATER_DELAY (bench regs_demand)),
               WriteI ''$A%d'' 2]\<rparr>)
       = Some (Inr (), \<lparr>trace = [Ask ''X'', Ask ''X'', WriteI ''$A%d'' 0, WriteI ''$H%d'' 0, Sleep 20,
                             WriteI ''$A%d'' 2, Sleep 1, Ask ''X''],
                    FIELD_RANGE = [-16, 16]\<rparr>)"
    by (simp add: fault_eval)
  from enable_persistent_mode_steps [OF d1 d2] d3 d4
  have d: "enable_persistent_mode (bench regs_demand) fresh =
     Some (Inr (), \<lparr>trace = [Ask ''X'', Ask ''X'', WriteI ''$A%d'' 0, WriteI ''$H%d'' 0, Sleep 20,
                             WriteI ''$A%d'' 2, Sleep 1, Ask ''X''],
                    FIELD_RANGE = [-16, 16]\<rparr>)"
    by simp
  have p1: "sweep_status (bench regs_persistent) fresh = (Inr ''at rest'', ?w1)"
    by (simp add: fault_eval)
  have p2: "switch_heater_status (bench regs_persistent) ?w1 = (Inr 0, ?w2)"
    by (simp add: fault_eval)
  from enable_persistent_mode_steps [OF p1 p2]
  have p: "enable_persistent_mode (bench regs_persistent) fresh = Some (Inr (), ?w2)"
    by simp
  have f1: "sweep_status (bench regs_fault) fresh = (Inr ''at rest'', ?w1)"
    by (simp add: fault_eval)
  have f2: "switch_heater_status (bench regs_fault) ?w1 = (Inr 5, ?w2)"
    by (simp add: fault_eval)
  from enable_persistent_mode_steps [OF f1 f2]
  have f: "enable_persistent_mode (bench regs_fault) fresh
     = Some (Inl (SwitchHeaterStatusError 5), ?w2)"
    by simp
  from d1 d2 d p2 p f2 f show ?thesis by blast
qed

subsection \<open>Leaving persistent mode\<close>

lemma extends_setpoint_writes:
  "extends (\<lambda>e. \<not> is_setpoint_write e) w w' \<Longrightarrow> setpoint_writes (trace w') = setpoint_writes (trace w)"
  by (erule extendsE) (simp add: setpoint_writes_def list_all_iff)

lemma act_ext_set_activity: "(\<And>c. P (WriteI ''$A%d'' c)) \<Longrightarrow> act_ext R P (set_activity self v)"
  by (simp add: set_activity_def act_ext_raise act_ext_send split: sum.split)

lemma act_ext_set_switch_heater_status:
  "P (WriteI ''$H%d'' v) \<Longrightarrow> act_ext R P (set_switch_heater_status self v)"
  by (simp add: set_switch_heater_status_def act_ext_send)

lemma act_ext_set_sweep_rate: "P (WriteF ''$T%f'' v) \<Longrightarrow> act_ext R P (set_sweep_rate self v)"
  by (simp add: set_sweep_rate_def act_ext_send)

lemma proc_ext_wait_for_idle_default:
  "(\<And>e. is_poll e \<Longrightarrow> P e) \<Longrightarrow> proc_ext R P (wait_for_idle_default self)"
  unfolding wait_for_idle_default_def
  by (rule proc_ext_mono [OF proc_ext_wait_for_idle])

lemma is_ask_not_setpoint: "is_ask e \<Longrightarrow> \<not> is_setpoint_write e"
  by (cases e) (simp_all add: is_ask_def is_setpoint_write_def)

lemma is_poll_not_setpoint: "is_poll e \<Longrightarrow> \<not> is_setpoint_write e"
  by (cases e) (simp_all add: is_poll_def is_setpoint_write_def)

lemma asks_setpoint_writes:
  "act_ext (FIELD_RANGE w) is_ask m \<Longrightarrow> m w = (r, w') \<Longrightarrow>
   setpoint_writes (trace w') = setpoint_writes (trace w) \<and>
   writes_of (trace w') = writes_of (trace w) \<and> FIELD_RANGE w' = FIELD_RANGE w"
proof -
  assume "act_ext (FIELD_RANGE w) is_ask m" and "m w = (r, w')"
  then have e: "extends is_ask w w'" using act_extD by blast
  then have "extends (\<lambda>e. \<not> is_setpoint_write e) w w'"
    by (rule extends_mono) (rule is_ask_not_setpoint)
  moreover from e have "extends (\<lambda>e. \<not> is_write e) w w'"
    by (rule extends_mono) (rule is_ask_not_write)
  ultimately show ?thesis using e
    by (simp add: extends_setpoint_writes extends_writes extends_range)
qed

lemma leave_persistent_ext:
  "proc_ext R (\<lambda>e. \<not> is_setpoint_write e)
     (pbind (lift (set_activity self ''to setpoint'')) (\<lambda>_.
      pbind (wait_for_idle_default self) (\<lambda>_.
      pbind (lift (set_activity self ''hold'')) (\<lambda>_.
      pbind (lift (set_switch_heater_status self 1)) (\<lambda>_.
      lift (sleep (SWITCH_HEATER_DELAY self)))))))"
  by (intro proc_ext_pbind proc_ext_lift act_ext_set_activity act_ext_set_switch_heater_status
      act_ext_sleep proc_ext_wait_for_idle_default)
     (simp_all add: is_poll_not_setpoint, simp_all add: is_setpoint_write_def)

lemmas drift_eval = sim_eval regs_held_def regs_drifted_def

text \<open>
  Claim C3, as stated, for the supply already in demand mode: on the simulated supply at
  rest with the switch heater on, held at 3 T with its set-point at 5 T,
  \<open>disable_persistent_mode\<close> returns successfully but is not free of writes: it writes
  the set-point.
\<close>

theorem disable_persistent_mode_demand_writes:
  "fst (sweep_status (bench regs_held) fresh) = Inr ''at rest'' \<and>
   fst (switch_heater_status (bench regs_held) fresh) = Inr 1 \<and>
   map_option fst (disable_persistent_mode (bench regs_held) fresh) = Some (Inr ()) \<and>
   map_option (writes_of \<circ> trace \<circ> snd) (disable_persistent_mode (bench regs_held) fresh)
     = Some [WriteF ''$J%f'' 3]"
  by (simp add: disable_persistent_mode_def reconcile_setpoint_def writes_of_def drift_eval)


text \<open>
  Claim C3, amended. With the magnet at rest, \<open>disable_persistent_mode\<close> first reconciles
  the set-point, whatever the mode: when the effective field \<open>f\<close> differs from the
  set-point read, the field is read again and the set-point is written with what the
  range validator returns for it (\<open>v\<close>; the field itself when the validator accepts it
  unchanged). Then, when the switch heater status reads 1, the call returns successfully
  and that write, if any, is its only write (no activity or heater command); when it
  reads 0 or 2, that write, if any, is the only set-point write of the whole call, so the
  set-point is left at the validated pre-call effective field.
\<close>

theorem disable_persistent_mode_setpoint:
  assumes a1: "sweep_status self w = (Inr ''at rest'', w1)"
    and a2: "field self w1 = (Inr f, w2)"
    and a3: "field_setpoint self w2 = (Inr sp, w3)"
    and a4: "f \<noteq> sp \<longrightarrow>
               field self w3 = (Inr f, w4) \<and>
               truncated_range (ctx self) f (FIELD_RANGE w4) = Inr v \<and>
               write_fault (ctx self) (trace w4) (WriteF ''$J%f'' v) = None"
    and a5: "w5 = (if f = sp then w3 else emit (WriteF ''$J%f'' v) w4)"
    and a6: "switch_heater_status self w5 = (Inr sw, w6)"
  shows "(sw = 1 \<longrightarrow>
           disable_persistent_mode self w = Some (Inr (), w6) \<and>
           writes_of (trace w6) =
             writes_of (trace w) @ (if f = sp then [] else [WriteF ''$J%f'' v])) \<and>
         (sw = 0 \<or> sw = 2 \<longrightarrow>
           (\<forall>r w'. disable_persistent_mode self w = Some (r, w') \<longrightarrow>
              setpoint_writes (trace w') =
                setpoint_writes (trace w) @ (if f = sp then [] else [WriteF ''$J%f'' v])))"
proof -
  have rec: "reconcile_setpoint self w1 = (Inr (), w5)"
    using a2 a3 a4 a5
    by (auto simp: reconcile_setpoint_def bind_def ret_def set_field_setpoint_def send_def)
  note s1 = asks_setpoint_writes [OF act_ext_sweep_status a1]
  note s2 = asks_setpoint_writes [OF act_ext_field a2]
  note s3 = asks_setpoint_writes [OF act_ext_field_setpoint a3]
  note s6 = asks_setpoint_writes [OF act_ext_switch_heater_status a6]
  have s5: "setpoint_writes (trace w5) =
      setpoint_writes (trace w) @ (if f = sp then [] else [WriteF ''$J%f'' v]) \<and>
      writes_of (trace w5) = writes_of (trace w) @ (if f = sp then [] else [WriteF ''$J%f'' v])"
  proof (cases "f = sp")
    case True
    with a5 s1 s2 s3 show ?thesis by simp
  next
    case False
    with a4 have "field self w3 = (Inr f, w4)" by simp
    note s4 = asks_setpoint_writes [OF act_ext_field this]
    from False a5 s1 s2 s3 s4 show ?thesis
      by (simp add: emit_def setpoint_writes_def writes_of_def is_setpoint_write_def)
  qed
  show ?thesis
  proof (intro conjI impI allI)
    assume "sw = 1"
    with a1 rec a6 show "disable_persistent_mode self w = Some (Inr (), w6)"
      by (simp add: disable_persistent_mode_def pbind_lift lift_def ret_def)
    from s5 s6 show "writes_of (trace w6) =
        writes_of (trace w) @ (if f = sp then [] else [WriteF ''$J%f'' v])"
      by simp
  next
    fix r w'
    assume sw: "sw = 0 \<or> sw = 2" and d: "disable_persistent_mode self w = Some (r, w')"
    from sw a1 rec a6 d have
      "pbind (lift (set_activity self ''to setpoint'')) (\<lambda>_.
       pbind (wait_for_idle_default self) (\<lambda>_.
       pbind (lift (set_activity self ''hold'')) (\<lambda>_.
       pbind (lift (set_switch_heater_status self 1)) (\<lambda>_.
       lift (sleep (SWITCH_HEATER_DELAY self)))))) w6 = Some (r, w')"
      by (auto simp: disable_persistent_mode_def pbind_lift)
    with leave_persistent_ext have "extends (\<lambda>e. \<not> is_setpoint_write e) w6 w'"
      by (rule proc_extD [OF _ refl])
    then have "setpoint_writes (trace w') = setpoint_writes (trace w6)"
      by (rule extends_setpoint_writes)
    with s5 s6 show "setpoint_writes (trace w') =
        setpoint_writes (trace w) @ (if f = sp then [] else [WriteF ''$J%f'' v])"
      by simp
  qed
qed

theorem disable_persistent_mode_setpoint_witness:
  "sweep_status (bench regs_drifted) (world_at []) = (Inr ''at rest'', world_at [Ask ''X'']) \<and>
   field (bench regs_drifted) (world_at [Ask ''X'']) = (Inr 5, world_at [Ask ''X'', Ask ''X'', Ask ''R18'']) \<and>
   field_setpoint (bench regs_drifted) (world_at [Ask ''X'', Ask ''X'', Ask ''R18''])
     = (Inr 3, world_at [Ask ''X'', Ask ''X'', Ask ''R18'', Ask ''R8'']) \<and>
   switch_heater_status (bench regs_drifted)
       (world_at [Ask ''X'', Ask ''X'', Ask ''R18'', Ask ''R8'', Ask ''X'', Ask ''R18'', WriteF ''$J%f'' 5])
     = (Inr 0, world_at [Ask ''X'', Ask ''X'', Ask ''R18'', Ask ''R8'', Ask ''X'', Ask ''R18'',
                   WriteF ''$J%f'' 5, Ask ''X'']) \<and>
   disable_persistent_mode (bench regs_drifted) (world_at []) =
     Some (Inr (), world_at [Ask ''X'', Ask ''X'', Ask ''R18'', Ask ''R8'', Ask ''X'', Ask ''R18'',
                       WriteF ''$J%f'' 5, Ask ''X'', WriteI ''$A%d'' 1, Sleep 1, Ask ''X'',
                       WriteI ''$A%d'' 0, WriteI ''$H%d'' 1, Sleep 20]) \<and>
   setpoint_writes [Ask ''X'', Ask ''X'', Ask ''R18'', Ask ''R8'', Ask ''X'', Ask ''R18'',
                    WriteF ''$J%f'' 5, Ask ''X'', WriteI ''$A%d'' 1, Sleep 1, Ask ''X'',
                    WriteI ''$A%d'' 0, WriteI ''$H%d'' 1, Sleep 20] = [WriteF ''$J%f'' 5] \<and>
   switch_heater_status (bench regs_held)
       (world_at [Ask ''X'', Ask ''X'', Ask ''R7'', Ask ''R8'', Ask ''X'', Ask ''R7'', WriteF ''$J%f'' 3])
     = (Inr 1, world_at [Ask ''X'', Ask ''X'', Ask ''R7'', Ask ''R8'', Ask ''X'', Ask ''R7'',
                   WriteF ''$J%f'' 3, Ask ''X'']) \<and>
   disable_persistent_mode (bench regs_held) (world_at []) =
     Some (Inr (), world_at [Ask ''X'', Ask ''X'', Ask ''R7'', Ask ''R8'', Ask ''X'', Ask ''R7'',
                       WriteF ''$J%f'' 3, Ask ''X''])"
proof -
  let ?w1 = "world_at [Ask ''X'']"
  let ?w2 = "world_at [Ask ''X'', Ask ''X'', Ask ''R18'']"
  let ?w3 = "world_at [Ask ''X'', Ask ''X'', Ask ''R18'', Ask ''R8'']"
  let ?w4 = "world_at [Ask ''X'', Ask ''X'', Ask ''R18'', Ask ''R8'', Ask ''X'', Ask ''R18'']"
  let ?w5 = "world_at [Ask ''X'', Ask ''X'', Ask ''R18'', Ask ''R8'', Ask ''X'', Ask ''R18'',
                 WriteF ''$J%f'' 5]"
  let ?w6 = "world_at [Ask ''X'', Ask ''X'', Ask ''R18'', Ask ''R8'', Ask ''X'', Ask ''R18'',
                 WriteF ''$J%f'' 5, Ask ''X'']"
  let ?end = "world_at [Ask ''X'', Ask ''X'', Ask ''R18'', Ask ''R8'', Ask ''X'', Ask ''R18'',
                  WriteF ''$J%f'' 5, Ask ''X'', WriteI ''$A%d'' 1, Sleep 1, Ask ''X'',
                  WriteI ''$A%d'' 0, WriteI ''$H%d'' 1, Sleep 20]"
  have a1: "sweep_status (bench regs_drifted) (world_at []) = (Inr ''at rest'', ?w1)"
    by (simp add: drift_eval)
  have a2: "field (bench regs_drifted) ?w1 = (Inr 5, ?w2)"
    by (simp add: drift_eval)
  have a3: "field_setpoint (bench regs_drifted) ?w2 = (Inr 3, ?w3)"
    by (simp add: drift_eval)
  have a4: "(5::real) \<noteq> 3 \<longrightarrow>
      field (bench regs_drifted) ?w3 = (Inr 5, ?w4) \<and>
      truncated_range (ctx (bench regs_drifted)) 5 (FIELD_RANGE ?w4) = Inr 5 \<and>
      write_fault (ctx (bench regs_drifted)) (trace ?w4) (WriteF ''$J%f'' 5) = None"
    by (simp add: drift_eval)
  have a5: "?w5 = (if (5::real) = 3 then ?w3 else emit (WriteF ''$J%f'' 5) ?w4)"
    by (simp add: emit_def world_at_def)
  have a6: "switch_heater_status (bench regs_drifted) ?w5 = (Inr 0, ?w6)"
    by (simp add: drift_eval)
  have run: "disable_persistent_mode (bench regs_drifted) (world_at []) = Some (Inr (), ?end)"
    by (simp add: disable_persistent_mode_def reconcile_setpoint_def drift_eval)
  from disable_persistent_mode_setpoint [OF a1 a2 a3 a4 a5 a6] run
  have "setpoint_writes (trace ?end) = setpoint_writes (trace (world_at [])) @ [WriteF ''$J%f'' 5]"
    by simp
  then have c: "setpoint_writes [Ask ''X'', Ask ''X'', Ask ''R18'', Ask ''R8'', Ask ''X'',
      Ask ''R18'', WriteF ''$J%f'' 5, Ask ''X'', WriteI ''$A%d'' 1, Sleep 1, Ask ''X'',
      WriteI ''$A%d'' 0, WriteI ''$H%d'' 1, Sleep 20] = [WriteF ''$J%f'' 5]"
    by (simp add: world_at_def setpoint_writes_def)
  let ?v2 = "world_at [Ask ''X'', Ask ''X'', Ask ''R7'']"
  let ?v3 = "world_at [Ask ''X'', Ask ''X'', Ask ''R7'', Ask ''R8'']"
  let ?v4 = "world_at [Ask ''X'', Ask ''X'', Ask ''R7'', Ask ''R8'', Ask ''X'', Ask ''R7'']"
  let ?v5 = "world_at [Ask ''X'', Ask ''X'', Ask ''R7'', Ask ''R8'', Ask ''X'', Ask ''R7'',
                 WriteF ''$J%f'' 3]"
  let ?v6 = "world_at [Ask ''X'', Ask ''X'', Ask ''R7'', Ask ''R8'', Ask ''X'', Ask ''R7'',
                 WriteF ''$J%f'' 3, Ask ''X'']"
  have b1: "sweep_status (bench regs_held) (world_at []) = (Inr ''at rest'', ?w1)"
    by (simp add: drift_eval)
  have b2: "field (bench regs_held) ?w1 = (Inr 3, ?v2)"
    by (simp add: drift_eval)
  have b3: "field_setpoint (bench regs_held) ?v2 = (Inr 5, ?v3)"
    by (simp add: drift_eval)
  have b4: "(3::real) \<noteq> 5 \<longrightarrow>
      field (bench regs_held) ?v3 = (Inr 3, ?v4) \<and>
      truncated_range (ctx (bench regs_held)) 3 (FIELD_RANGE ?v4) = Inr 3 \<and>
      write_fault (ctx (bench regs_held)) (trace ?v4) (WriteF ''$J%f'' 3) = None"
    by (simp add: drift_eval)
  have b5: "?v5 = (if (3::real) = 5 then ?v3 else emit (WriteF ''$J%f'' 3) ?v4)"
    by (simp add: emit_def world_at_def)
  have b6: "switch_heater_status (bench regs_held) ?v5 = (Inr 1, ?v6)"
    by (simp add: drift_eval)
  from disable_persistent_mode_setpoint [OF b1 b2 b3 b4 b5 b6]
  have d: "disable_persistent_mode (bench regs_held) (world_at []) = Some (Inr (), ?v6)"
    by simp
  from a1 a2 a3 a6 run c b6 d show ?thesis by blast
qed

subsection \<open>The poller: the error budget\<close>

lemma sweep_status_world: "snd (sweep_status self w) = emit (Ask ''X'') w"
  by (simp add: sweep_status_def mapped_status_field_def status_field_def ask_status_def
      split: sum.split)

lemma polls_Suc: "polls delay (Suc k) = polls delay k @ [Sleep delay, Ask ''X'']"
  by (induction k) (simp_all add: polls_def)


lemmas probe_eval = sim_eval polls_def count_asks_def is_ask_def garbled_def probe_def

text \<open>
  Claim C7. The claim, like the documentation of \<^verbatim>\<open>max_errors\<close> ("maximum number of
  errors that is allowed in the communication with the instrument before the wait is
  terminated (by raising a MagnetError)"), has every failed status query counted. The
  loop catches ValueError only. On a device whose first three status replies are the
  truncated reply \<open>X\<close> (the fourth would report the magnet at rest), \<^verbatim>\<open>int(v[11])\<close>
  raises IndexError, and \<open>wait_for_idle\<close> with \<open>max_errors = 2\<close> ends at the first query with
  that IndexError: the failure is not counted, the wait does not go on, and no MagnetError
  for too many errors is raised.
\<close>

theorem wait_for_idle_index_error:
  "fst (sweep_status (probe 3 ''X'') (world_at [Sleep 1])) = Inl IndexError \<and>
   fst (sweep_status (probe 3 ''X'')
          (world_at [Sleep 1, Ask ''X'', Sleep 1, Ask ''X'', Sleep 1, Ask ''X'', Sleep 1]))
     = Inr ''at rest'' \<and>
   wait_for_idle (probe 3 ''X'') 1 (Some 2) None (\<lambda>h. False) (world_at [])
     = Some (Inl IndexError, world_at [Sleep 1, Ask ''X''])"
  by (simp add: probe_eval)

text \<open>
  For the failures that the loop does catch, those of class ValueError, the poller does
  what claim C7 says. The count is cumulative: it is never reset by a query that
  succeeds. Take \<open>max_errors = n\<close>, no time limit, and a run whose first \<open>K + 1\<close> queries
  each fail with a ValueError or return a status other than "at rest", with the cancel
  predicate false after each. If the number of failures among the first \<open>K\<close> queries is
  at most \<open>n\<close> and the number among the first \<open>K + 1\<close> exceeds \<open>n\<close>, then \<open>wait_for_idle\<close>
  polls exactly \<open>K + 1\<close> times and fails with the MagnetError "Too many exceptions
  occurred": it goes on while the count is within the budget and raises as soon as the
  count exceeds it.
\<close>

lemma errors_before_mono: "j \<le> k \<Longrightarrow> errors_before self w delay j \<le> errors_before self w delay k"
  by (induction k) (auto simp: le_Suc_eq)

text \<open>
  One turn of the loop when the query fails with a ValueError or returns a status other
  than at rest, and the call is not cancelled.
\<close>

lemma wait_loop_busy_step:
  assumes "0 \<le> delay"
    and "case reply_at self w delay j of Inl e \<Rightarrow> is_ValueError e | Inr s \<Rightarrow> s \<noteq> ''at rest''"
    and "status \<noteq> Some ''at rest''"
    and "\<not> should_stop (trace w @ polls delay (Suc j))"
  shows "\<exists>status'. status' \<noteq> Some ''at rest'' \<and>
    wait_loop self delay (Some (int n)) None should_stop start
       (int (errors_before self w delay j)) status (w\<lparr>trace := trace w @ polls delay j\<rparr>) =
    (if n < errors_before self w delay (Suc j)
     then Some (Inl (MagnetError
        ''IPS 120-10: Too many exceptions occurred during getting IPS status.''),
        w\<lparr>trace := trace w @ polls delay (Suc j)\<rparr>)
     else wait_loop self delay (Some (int n)) None should_stop start
        (int (errors_before self w delay (Suc j))) status'
        (w\<lparr>trace := trace w @ polls delay (Suc j)\<rparr>))"
proof -
  let ?wj = "w\<lparr>trace := trace w @ polls delay j\<rparr>"
  let ?r = "reply_at self w delay j"
  have s: "emit (Sleep delay) ?wj = w\<lparr>trace := trace w @ polls delay j @ [Sleep delay]\<rparr>"
    by (simp add: emit_def)
  have e: "emit (Ask ''X'') (emit (Sleep delay) ?wj) = w\<lparr>trace := trace w @ polls delay (Suc j)\<rparr>"
    by (simp add: emit_def polls_Suc)
  have q: "sweep_status self (emit (Sleep delay) ?wj) = (?r, w\<lparr>trace := trace w @ polls delay (Suc j)\<rparr>)"
    using sweep_status_world [of self "emit (Sleep delay) ?wj"]
    unfolding e reply_at_def s [symmetric]
    by (cases "sweep_status self (emit (Sleep delay) ?wj)") simp
  show ?thesis
  proof (cases ?r)
    case (Inl x)
    with assms(2) have v: "is_ValueError x" by simp
    have "wait_loop self delay (Some (int n)) None should_stop start
       (int (errors_before self w delay j)) status ?wj =
      (if n < errors_before self w delay (Suc j)
       then Some (Inl (MagnetError
        ''IPS 120-10: Too many exceptions occurred during getting IPS status.''),
        w\<lparr>trace := trace w @ polls delay (Suc j)\<rparr>)
       else wait_loop self delay (Some (int n)) None should_stop start
        (int (errors_before self w delay (Suc j))) status
        (w\<lparr>trace := trace w @ polls delay (Suc j)\<rparr>))"
      using assms(1,3,4) v Inl
      by (subst wait_loop.simps) (simp add: sleep_def q try_status_def add.commute)
    with assms(3) show ?thesis by blast
  next
    case (Inr s)
    with assms(2) have v: "s \<noteq> ''at rest''" by simp
    have "wait_loop self delay (Some (int n)) None should_stop start
       (int (errors_before self w delay j)) status ?wj =
      (if n < errors_before self w delay (Suc j)
       then Some (Inl (MagnetError
        ''IPS 120-10: Too many exceptions occurred during getting IPS status.''),
        w\<lparr>trace := trace w @ polls delay (Suc j)\<rparr>)
       else wait_loop self delay (Some (int n)) None should_stop start
        (int (errors_before self w delay (Suc j))) (Some s)
        (w\<lparr>trace := trace w @ polls delay (Suc j)\<rparr>))"
      using assms(1,4) v Inr
      by (subst wait_loop.simps) (simp add: sleep_def q try_status_def)
    with v show ?thesis by blast
  qed
qed

theorem wait_for_idle_counts_errors:
  assumes "0 \<le> delay"
    and "\<forall>k\<le>K. case reply_at self w delay k of
                  Inl e \<Rightarrow> is_ValueError e | Inr s \<Rightarrow> s \<noteq> ''at rest''"
    and "\<forall>k\<le>K. \<not> should_stop (trace w @ polls delay (Suc k))"
    and "errors_before self w delay K \<le> n"
    and "n < errors_before self w delay (Suc K)"
  shows "wait_for_idle self delay (Some (int n)) None should_stop w =
     Some (Inl (MagnetError
        ''IPS 120-10: Too many exceptions occurred during getting IPS status.''),
        w\<lparr>trace := trace w @ polls delay (Suc K)\<rparr>)"
proof -
  have loop: "j \<le> K \<Longrightarrow> status \<noteq> Some ''at rest'' \<Longrightarrow>
     wait_loop self delay (Some (int n)) None should_stop start
       (int (errors_before self w delay j)) status (w\<lparr>trace := trace w @ polls delay j\<rparr>) =
     Some (Inl (MagnetError
        ''IPS 120-10: Too many exceptions occurred during getting IPS status.''),
        w\<lparr>trace := trace w @ polls delay (Suc K)\<rparr>)" for j status start
  proof (induction "K - j" arbitrary: j status)
    case 0
    then have j: "j = K" by simp
    from assms(2,3) have
      1: "case reply_at self w delay K of Inl e \<Rightarrow> is_ValueError e | Inr s \<Rightarrow> s \<noteq> ''at rest''"
      and 2: "\<not> should_stop (trace w @ polls delay (Suc K))" by simp_all
    from wait_loop_busy_step [where should_stop = should_stop, OF assms(1) 1 "0.prems"(2) 2,
        of n start] assms(5)
    show ?case unfolding j by auto
  next
    case (Suc d)
    then have j: "j < K" "d = K - Suc j" "Suc j \<le> K" by simp_all
    from assms(2,3) j have
      1: "case reply_at self w delay j of Inl e \<Rightarrow> is_ValueError e | Inr s \<Rightarrow> s \<noteq> ''at rest''"
      and 2: "\<not> should_stop (trace w @ polls delay (Suc j))" by simp_all
    have "errors_before self w delay (Suc j) \<le> errors_before self w delay K"
      using j(3) by (rule errors_before_mono)
    with assms(4) have 3: "\<not> n < errors_before self w delay (Suc j)" by simp
    from wait_loop_busy_step [where should_stop = should_stop, OF assms(1) 1 Suc.prems(2) 2,
        of n start] 3
    obtain status' where st: "status' \<noteq> Some ''at rest''"
      and eq: "wait_loop self delay (Some (int n)) None should_stop start
         (int (errors_before self w delay j)) status (w\<lparr>trace := trace w @ polls delay j\<rparr>) =
        wait_loop self delay (Some (int n)) None should_stop start
         (int (errors_before self w delay (Suc j))) status'
         (w\<lparr>trace := trace w @ polls delay (Suc j)\<rparr>)"
      by auto
    from Suc.hyps(1) [OF j(2) j(3) st] eq show ?case by simp
  qed
  have "polls delay 0 = []" by (simp add: polls_def)
  with loop [of 0 None] show ?thesis by (simp add: wait_for_idle_def)
qed


lemmas flaky_eval = sim_eval polls_def count_asks_def is_ask_def garbled_def probe_def
  scripted_def flaky_def reply_at_def

theorem wait_for_idle_counts_errors_witness:
  "reply_at flaky (world_at []) 1 0 = Inl ValueError \<and>
   reply_at flaky (world_at []) 1 1 = Inr ''sweeping'' \<and>
   reply_at flaky (world_at []) 1 2 = Inl ValueError \<and>
   errors_before flaky (world_at []) 1 2 = 1 \<and>
   errors_before flaky (world_at []) 1 3 = 2 \<and>
   wait_for_idle flaky 1 (Some 1) None (\<lambda>h. False) (world_at []) =
     Some (Inl (MagnetError
        ''IPS 120-10: Too many exceptions occurred during getting IPS status.''),
        world_at [Sleep 1, Ask ''X'', Sleep 1, Ask ''X'', Sleep 1, Ask ''X'']) \<and>
   reply_at (probe 3 ''X00A0C3H1M0?P00'') (world_at []) 1 0 = Inl ValueError \<and>
   reply_at (probe 3 ''X00A0C3H1M0?P00'') (world_at []) 1 1 = Inl ValueError \<and>
   reply_at (probe 3 ''X00A0C3H1M0?P00'') (world_at []) 1 2 = Inl ValueError \<and>
   reply_at (probe 3 ''X00A0C3H1M0?P00'') (world_at []) 1 3 = Inr ''at rest'' \<and>
   errors_before (probe 3 ''X00A0C3H1M0?P00'') (world_at []) 1 2 = 2 \<and>
   errors_before (probe 3 ''X00A0C3H1M0?P00'') (world_at []) 1 3 = 3 \<and>
   wait_for_idle (probe 3 ''X00A0C3H1M0?P00'') 1 (Some 2) None (\<lambda>h. False) (world_at []) =
     Some (Inl (MagnetError
        ''IPS 120-10: Too many exceptions occurred during getting IPS status.''),
        world_at [Sleep 1, Ask ''X'', Sleep 1, Ask ''X'', Sleep 1, Ask ''X''])"
proof -
  let ?bad = "probe 3 ''X00A0C3H1M0?P00''"
  have nums: "(2::nat) = Suc (Suc 0)" "(3::nat) = Suc (Suc (Suc 0))" by simp_all
  have k: "k \<le> Suc (Suc 0) \<Longrightarrow> k = 0 \<or> k = Suc 0 \<or> k = Suc (Suc 0)" for k :: nat by arith
  have d: "(0::real) \<le> 1" by simp
  have e: "(world_at [])\<lparr>trace := trace (world_at []) @ polls 1 (Suc (Suc (Suc 0)))\<rparr>
     = world_at [Sleep 1, Ask ''X'', Sleep 1, Ask ''X'', Sleep 1, Ask ''X'']"
    by (simp add: world_at_def polls_def)
  have f0: "reply_at flaky (world_at []) 1 0 = Inl ValueError"
    and f1: "reply_at flaky (world_at []) 1 1 = Inr ''sweeping''"
    and f2: "reply_at flaky (world_at []) 1 2 = Inl ValueError"
    by (simp_all add: flaky_eval nums)
  have f3: "errors_before flaky (world_at []) 1 2 = 1"
    and f4: "errors_before flaky (world_at []) 1 3 = 2"
    using f0 f1 f2 by (simp_all add: nums)
  have fa: "\<forall>k\<le>Suc (Suc 0). case reply_at flaky (world_at []) 1 k of
                  Inl e \<Rightarrow> is_ValueError e | Inr s \<Rightarrow> s \<noteq> ''at rest''"
    using f0 f1 f2 by (auto dest!: k simp: nums)
  have fb: "\<forall>k\<le>Suc (Suc 0). \<not> (\<lambda>h. False) (trace (world_at []) @ polls 1 (Suc k))" by simp
  have fc: "errors_before flaky (world_at []) 1 (Suc (Suc 0)) \<le> 1"
    and fd: "1 < errors_before flaky (world_at []) 1 (Suc (Suc (Suc 0)))"
    using f3 f4 by (simp_all add: nums)
  from wait_for_idle_counts_errors [of 1 "Suc (Suc 0)" flaky "world_at []" "\<lambda>h. False" 1,
      OF d fa fb fc fd] e
  have fr: "wait_for_idle flaky 1 (Some 1) None (\<lambda>h. False) (world_at []) =
     Some (Inl (MagnetError
        ''IPS 120-10: Too many exceptions occurred during getting IPS status.''),
        world_at [Sleep 1, Ask ''X'', Sleep 1, Ask ''X'', Sleep 1, Ask ''X''])"
    by simp
  have p0: "reply_at ?bad (world_at []) 1 0 = Inl ValueError"
    and p1: "reply_at ?bad (world_at []) 1 1 = Inl ValueError"
    and p2: "reply_at ?bad (world_at []) 1 2 = Inl ValueError"
    and p3: "reply_at ?bad (world_at []) 1 3 = Inr ''at rest''"
    by (simp_all add: flaky_eval nums)
  have p4: "errors_before ?bad (world_at []) 1 2 = 2"
    and p5: "errors_before ?bad (world_at []) 1 3 = 3"
    using p0 p1 p2 by (simp_all add: nums)
  have pa: "\<forall>k\<le>Suc (Suc 0). case reply_at ?bad (world_at []) 1 k of
                  Inl e \<Rightarrow> is_ValueError e | Inr s \<Rightarrow> s \<noteq> ''at rest''"
    using p0 p1 p2 by (auto dest!: k simp: nums)
  have pc: "errors_before ?bad (world_at []) 1 (Suc (Suc 0)) \<le> 2"
    and pd: "2 < errors_before ?bad (world_at []) 1 (Suc (Suc (Suc 0)))"
    using p4 p5 by (simp_all add: nums)
  from wait_for_idle_counts_errors [of 1 "Suc (Suc 0)" ?bad "world_at []" "\<lambda>h. False" 2,
      OF d pa fb pc pd] e
  have pr: "wait_for_idle ?bad 1 (Some 2) None (\<lambda>h. False) (world_at []) =
     Some (Inl (MagnetError
        ''IPS 120-10: Too many exceptions occurred during getting IPS status.''),
        world_at [Sleep 1, Ask ''X'', Sleep 1, Ask ''X'', Sleep 1, Ask ''X''])"
    by simp
  from f0 f1 f2 f3 f4 fr p0 p1 p2 p3 p4 p5 pr show ?thesis by blast
qed

subsection \<open>The poller: the time limit\<close>







subsection \<open>What the field sequencer may send\<close>

lemma act_ext_if:
  "(c \<Longrightarrow> act_ext R P a) \<Longrightarrow> (\<not> c \<Longrightarrow> act_ext R P b) \<Longrightarrow> act_ext R P (if c then a else b)"
  by simp

lemma proc_ext_if:
  "(c \<Longrightarrow> proc_ext R P a) \<Longrightarrow> (\<not> c \<Longrightarrow> proc_ext R P b) \<Longrightarrow> proc_ext R P (if c then a else b)"
  by simp

lemma act_ext_asks: "act_ext R is_ask m \<Longrightarrow> (\<And>e. is_poll e \<Longrightarrow> P e) \<Longrightarrow> act_ext R P m"
  by (erule act_ext_mono) (simp add: is_ask_poll)

lemma act_ext_reconcile_setpoint:
  assumes "\<And>e. is_poll e \<Longrightarrow> P e" and "\<And>v. act_ext R P (set_field_setpoint self v)"
  shows "act_ext R P (reconcile_setpoint self)"
  unfolding reconcile_setpoint_def
  by (intro act_ext_bind act_ext_if act_ext_ret assms(2)
      act_ext_asks [OF act_ext_field assms(1)] act_ext_asks [OF act_ext_field_setpoint assms(1)])

lemma proc_ext_enable_persistent_mode:
  assumes polls: "\<And>e. is_poll e \<Longrightarrow> P e" and acts: "\<And>c. P (WriteI ''$A%d'' c)"
    and off: "P (WriteI ''$H%d'' 0)"
  shows "proc_ext R P (enable_persistent_mode self)"
proof -
  have sl: "P (Sleep d)" for d by (rule polls) (simp add: is_poll_def)
  show ?thesis
    unfolding enable_persistent_mode_def
    by (intro proc_ext_pbind proc_ext_if proc_ext_lift act_ext_ret act_ext_raise
        act_ext_asks [OF act_ext_sweep_status polls]
        act_ext_asks [OF act_ext_switch_heater_status polls]
        act_ext_set_activity act_ext_set_switch_heater_status act_ext_sleep
        proc_ext_wait_for_idle_default [OF polls] acts off sl)
qed

lemma proc_ext_disable_persistent_mode:
  assumes polls: "\<And>e. is_poll e \<Longrightarrow> P e" and acts: "\<And>c. P (WriteI ''$A%d'' c)"
    and sp: "\<And>v. act_ext R P (set_field_setpoint self v)"
    and on: "P (WriteI ''$H%d'' 1)"
  shows "proc_ext R P (disable_persistent_mode self)"
proof -
  have sl: "P (Sleep d)" for d by (rule polls) (simp add: is_poll_def)
  show ?thesis
    unfolding disable_persistent_mode_def
    by (intro proc_ext_pbind proc_ext_if proc_ext_lift act_ext_ret act_ext_raise
        act_ext_asks [OF act_ext_sweep_status polls]
        act_ext_asks [OF act_ext_switch_heater_status polls]
        act_ext_reconcile_setpoint [OF polls sp]
        act_ext_set_activity act_ext_set_switch_heater_status act_ext_sleep
        proc_ext_wait_for_idle_default [OF polls] acts on sl)
qed

lemma proc_ext_set_field:
  assumes polls: "\<And>e. is_poll e \<Longrightarrow> P e" and acts: "\<And>c. P (WriteI ''$A%d'' c)"
    and rate: "\<And>x. P (WriteF ''$T%f'' x)"
    and sp: "\<And>v. act_ext R P (set_field_setpoint self v)"
    and on: "pmc \<Longrightarrow> P (WriteI ''$H%d'' 1)"
    and off: "pmc \<Longrightarrow> fld \<noteq> 0 \<Longrightarrow> P (WriteI ''$H%d'' 0)"
  shows "proc_ext R P (set_field self fld sweep_rate pmc)"
proof -
  have r: "proc_ext R P (case sweep_rate of Some r \<Rightarrow> lift (set_sweep_rate self r)
                          | None \<Rightarrow> lift (ret ()))"
    by (cases sweep_rate) (simp_all add: proc_ext_lift act_ext_ret act_ext_set_sweep_rate rate)
  have s10: "P (Sleep 10)" by (rule polls) (simp add: is_poll_def)
  have dis: "pmc \<Longrightarrow> proc_ext R P (disable_persistent_mode self)"
    by (intro proc_ext_disable_persistent_mode polls acts sp on)
  have en: "pmc \<and> fld \<noteq> 0 \<Longrightarrow> proc_ext R P (enable_persistent_mode self)"
    by (intro proc_ext_enable_persistent_mode polls acts off) simp_all
  show ?thesis
    unfolding set_field_def
    by (intro proc_ext_pbind proc_ext_if proc_ext_lift act_ext_ret act_ext_raise act_ext_bind
        act_ext_asks [OF act_ext_field polls]
        act_ext_asks [OF act_ext_switch_heater_status polls]
        act_ext_set_activity act_ext_sleep proc_ext_wait_for_idle_default [OF polls]
        dis en r s10 acts sp)
qed


subsection \<open>Training the magnet\<close>

lemma act_ext_set_field_setpoint:
  "(\<And>x. P (WriteF ''$J%f'' x)) \<Longrightarrow> act_ext R P (set_field_setpoint self v)"
  unfolding act_ext_def set_field_setpoint_def
  by (auto simp: extends_refl send_def extends_emit split: sum.split option.split)

lemma is_poll_not_heater: "is_poll e \<Longrightarrow> \<not> is_heater_write e"
  by (cases e) (simp_all add: is_poll_def is_heater_write_def)

lemma set_field_training_ext:
  "proc_ext R (\<lambda>e. \<not> is_heater_write e) (set_field self fld sweep_rate False)"
  by (rule proc_ext_set_field)
     (simp_all add: is_poll_not_heater, simp_all add: act_ext_set_field_setpoint is_heater_write_def)

lemma set_field_zero_ext:
  "proc_ext R (\<lambda>e. e \<noteq> WriteI ''$H%d'' 0) (set_field self 0 sweep_rate True)"
  by (rule proc_ext_set_field) (auto simp: is_poll_def act_ext_set_field_setpoint)

lemma train_magnet_ext:
  "proc_ext R (\<lambda>e. e \<noteq> WriteI ''$H%d'' 0) (train_magnet self scheme)"
proof (induction scheme)
  case Nil
  show ?case by (simp add: set_field_zero_ext)
next
  case (Cons step rest)
  obtain fld rate where step: "step = (fld, rate)" by (cases step)
  have "proc_ext R (\<lambda>e. e \<noteq> WriteI ''$H%d'' 0) (set_field self fld (Some rate) False)"
    by (rule proc_ext_mono [OF set_field_training_ext]) (auto simp: is_heater_write_def)
  with Cons show ?case
    unfolding step by (simp add: proc_ext_pbind)
qed

text \<open>
  Claim C5, as stated: on the simulated supply in demand mode at 0 T,
  \<open>train_magnet [(5, 1), (10, 0.5)]\<close> returns successfully, and afterwards the switch
  heater status reads 1 and the field reads 0: the magnet is at zero field in demand
  mode, not in persistent mode.
\<close>

theorem train_magnet_ends_in_demand:
  "map_option fst (train_magnet (bench regs_demand) [(5, 1), (10, 1 / 2)] fresh) = Some (Inr ()) \<and>
   map_option (fst \<circ> switch_heater_status (bench regs_demand) \<circ> snd)
     (train_magnet (bench regs_demand) [(5, 1), (10, 1 / 2)] fresh) = Some (Inr 1) \<and>
   map_option (fst \<circ> field (bench regs_demand) \<circ> snd)
     (train_magnet (bench regs_demand) [(5, 1), (10, 1 / 2)] fresh) = Some (Inr 0)"
  by (simp add: set_field_def sim_eval)

text \<open>
  Claim C5, amended. \<open>train_magnet\<close> calls \<open>set_field\<close> with the field and rate of each
  step, in order, without persistent-mode control, and then \<open>set_field 0\<close> with the
  defaults. A training step sends no switch heater command at all, and the whole of
  \<open>train_magnet\<close> never sends the command that switches the heater off: the closing
  \<open>set_field 0\<close> does not enable persistent mode.
\<close>

theorem train_magnet_heater:
  "(train_magnet self [] = set_field self 0 None True) \<and>
   (train_magnet self ((fld, rate) # rest) =
      pbind (set_field self fld (Some rate) False) (\<lambda>_. train_magnet self rest)) \<and>
   (\<forall>w r w'. set_field self fld (Some rate) False w = Some (r, w') \<longrightarrow>
      extends (\<lambda>e. \<not> is_heater_write e) w w') \<and>
   (\<forall>w r w'. train_magnet self scheme w = Some (r, w') \<longrightarrow>
      extends (\<lambda>e. e \<noteq> WriteI ''$H%d'' 0) w w')"
proof (intro conjI allI impI)
  show "train_magnet self [] = set_field self 0 None True" by simp
  show "train_magnet self ((fld, rate) # rest) =
      pbind (set_field self fld (Some rate) False) (\<lambda>_. train_magnet self rest)" by simp
next
  fix w r w'
  assume "set_field self fld (Some rate) False w = Some (r, w')"
  with set_field_training_ext show "extends (\<lambda>e. \<not> is_heater_write e) w w'"
    by (rule proc_extD [OF _ refl])
next
  fix w r w'
  assume "train_magnet self scheme w = Some (r, w')"
  with train_magnet_ext show "extends (\<lambda>e. e \<noteq> WriteI ''$H%d'' 0) w w'"
    by (rule proc_extD [OF _ refl])
qed

theorem train_magnet_heater_witness:
  "train_magnet (bench regs_demand) [(5, 1), (10, 1 / 2)] fresh =
     Some (Inr (), world_at
       [Ask ''X'', Ask ''R7'', Ask ''X'', WriteF ''$T%f'' 1, WriteI ''$A%d'' 1, WriteF ''$J%f'' 5,
        Sleep 1, Ask ''X'', Sleep 10,
        Ask ''X'', Ask ''R7'', Ask ''X'', WriteF ''$T%f'' (1 / 2), WriteI ''$A%d'' 1,
        WriteF ''$J%f'' 10, Sleep 1, Ask ''X'', Sleep 10,
        Ask ''X'', Ask ''R7'', Ask ''X'', WriteI ''$A%d'' 2, Sleep 1, Ask ''X'', Sleep 10]) \<and>
   extends (\<lambda>e. e \<noteq> WriteI ''$H%d'' 0) fresh (world_at
       [Ask ''X'', Ask ''R7'', Ask ''X'', WriteF ''$T%f'' 1, WriteI ''$A%d'' 1, WriteF ''$J%f'' 5,
        Sleep 1, Ask ''X'', Sleep 10,
        Ask ''X'', Ask ''R7'', Ask ''X'', WriteF ''$T%f'' (1 / 2), WriteI ''$A%d'' 1,
        WriteF ''$J%f'' 10, Sleep 1, Ask ''X'', Sleep 10,
        Ask ''X'', Ask ''R7'', Ask ''X'', WriteI ''$A%d'' 2, Sleep 1, Ask ''X'', Sleep 10]) \<and>
   set_field (bench regs_demand) 5 (Some 1) False fresh =
     Some (Inr (), world_at
       [Ask ''X'', Ask ''R7'', Ask ''X'', WriteF ''$T%f'' 1, WriteI ''$A%d'' 1, WriteF ''$J%f'' 5,
        Sleep 1, Ask ''X'', Sleep 10]) \<and>
   extends (\<lambda>e. \<not> is_heater_write e) fresh (world_at
       [Ask ''X'', Ask ''R7'', Ask ''X'', WriteF ''$T%f'' 1, WriteI ''$A%d'' 1, WriteF ''$J%f'' 5,
        Sleep 1, Ask ''X'', Sleep 10])"
proof -
  let ?end = "world_at
       [Ask ''X'', Ask ''R7'', Ask ''X'', WriteF ''$T%f'' 1, WriteI ''$A%d'' 1, WriteF ''$J%f'' 5,
        Sleep 1, Ask ''X'', Sleep 10,
        Ask ''X'', Ask ''R7'', Ask ''X'', WriteF ''$T%f'' (1 / 2), WriteI ''$A%d'' 1,
        WriteF ''$J%f'' 10, Sleep 1, Ask ''X'', Sleep 10,
        Ask ''X'', Ask ''R7'', Ask ''X'', WriteI ''$A%d'' 2, Sleep 1, Ask ''X'', Sleep 10]"
  let ?one = "world_at
       [Ask ''X'', Ask ''R7'', Ask ''X'', WriteF ''$T%f'' 1, WriteI ''$A%d'' 1, WriteF ''$J%f'' 5,
        Sleep 1, Ask ''X'', Sleep 10]"
  have run: "train_magnet (bench regs_demand) [(5, 1), (10, 1 / 2)] fresh = Some (Inr (), ?end)"
    by (simp add: set_field_def sim_eval)
  have one: "set_field (bench regs_demand) 5 (Some 1) False fresh = Some (Inr (), ?one)"
    by (simp add: set_field_def sim_eval)
  note t = train_magnet_heater [of "bench regs_demand" 5 1 "[]" "[(5, 1), (10, 1 / 2)]"]
  from t run have a: "extends (\<lambda>e. e \<noteq> WriteI ''$H%d'' 0) fresh ?end" by blast
  from t one have b: "extends (\<lambda>e. \<not> is_heater_write e) fresh ?one" by blast
  from run one a b show ?thesis by blast
qed


subsection \<open>The field range\<close>

lemma validated_other: "\<not> is_setpoint_write e \<Longrightarrow> validated self R e"
  by (auto simp: validated_def is_setpoint_write_def)

lemma act_ext_set_field_setpoint_validated:
  "act_ext R (validated self R) (set_field_setpoint self v)"
  unfolding act_ext_def set_field_setpoint_def
  by (auto simp: extends_refl send_def validated_def intro!: extends_emit
      split: sum.split option.split)

lemma set_field_validated_ext:
  "proc_ext R (validated self R) (set_field self t sweep_rate pmc)"
  by (rule proc_ext_set_field)
     (simp_all add: act_ext_set_field_setpoint_validated validated_other is_poll_not_setpoint,
      simp_all add: validated_def)

lemma after_ramp_ext:
  "proc_ext R (\<lambda>e. \<not> is_setpoint_write e)
     (pbind (wait_for_idle_default self) (\<lambda>_.
      pbind (lift (sleep 10)) (\<lambda>_.
        if pmc \<and> t \<noteq> 0 then enable_persistent_mode self else lift (ret ()))))"
  by (intro proc_ext_pbind proc_ext_if proc_ext_lift act_ext_ret act_ext_sleep
      proc_ext_wait_for_idle_default proc_ext_enable_persistent_mode)
     (simp_all add: is_poll_not_setpoint, simp_all add: is_setpoint_write_def)

lemmas strict_eval = sim_eval rejecting_def strict_def

text \<open>
  Claim C6, as stated: with the field range [-16, 16] and the target 20, on the simulated
  supply in demand mode. With the truncating validator the call is not rejected: it
  returns successfully after sending Activity = to setpoint and the set-point 16. With a
  validator that refuses, the call fails with the validator's error, but only after the
  Activity = to setpoint command has been sent.
\<close>

theorem set_field_out_of_range:
  "FIELD_RANGE fresh = [-16, 16] \<and> (16::real) < 20 \<and>
   map_option fst (set_field (bench regs_demand) 20 None False fresh) = Some (Inr ()) \<and>
   map_option (writes_of \<circ> trace \<circ> snd) (set_field (bench regs_demand) 20 None False fresh)
     = Some [WriteI ''$A%d'' 1, WriteF ''$J%f'' 16] \<and>
   map_option fst (set_field (strict regs_demand) 20 None False fresh) = Some (Inl ValueError) \<and>
   map_option (writes_of \<circ> trace \<circ> snd) (set_field (strict regs_demand) 20 None False fresh)
     = Some [WriteI ''$A%d'' 1]"
  by (simp add: set_field_def writes_of_def strict_eval)


text \<open>
  Claim C6, amended. In every mode and for every target, each set-point that \<open>set_field\<close>
  transmits is a value that the range validator has returned for the field range in
  force. An out-of-range target is not rejected before commands are sent: when the switch
  heater status reads 1, the target is neither the effective field nor 0, and the
  channel's writes do not fail, the sweep rate (if given) and Activity = to setpoint are
  sent before the validator is applied to the target; then, if the validator refuses the
  target, the call fails with the validator's error and has sent no set-point, and if the
  validator returns \<open>v\<close>, the set-point \<open>v\<close> is sent, and it is the only set-point write of
  the call. For the other cases (persistent mode, target 0, a failing write) only the
  first statement is made.
\<close>

theorem set_field_setpoint_validated:
  "(\<forall>w r w'. set_field self t sweep_rate pmc w = Some (r, w') \<longrightarrow>
      extends (validated self (FIELD_RANGE w)) w w') \<and>
   (\<forall>w w1 w2 f.
      field self w = (Inr f, w1) \<and> f \<noteq> t \<and> t \<noteq> 0 \<and>
      switch_heater_status self w1 = (Inr 1, w2) \<and>
      (\<forall>h ev. write_fault (ctx self) h ev = None) \<longrightarrow>
      (\<forall>e. truncated_range (ctx self) t (FIELD_RANGE w) = Inl e \<longrightarrow>
         set_field self t sweep_rate pmc w =
           Some (Inl e, emit (WriteI ''$A%d'' 1)
                   (case sweep_rate of None \<Rightarrow> w2 | Some r \<Rightarrow> emit (WriteF ''$T%f'' r) w2))) \<and>
      (\<forall>v r w'. truncated_range (ctx self) t (FIELD_RANGE w) = Inr v \<and>
         set_field self t sweep_rate pmc w = Some (r, w') \<longrightarrow>
         writes_of (take (length (trace w2) + (case sweep_rate of None \<Rightarrow> 2 | Some r \<Rightarrow> 3))
                      (trace w')) =
           writes_of (trace w) @
             (case sweep_rate of None \<Rightarrow> [] | Some r \<Rightarrow> [WriteF ''$T%f'' r]) @
             [WriteI ''$A%d'' 1, WriteF ''$J%f'' v] \<and>
         setpoint_writes (trace w') = setpoint_writes (trace w) @ [WriteF ''$J%f'' v]))"
proof (intro conjI allI impI)
  fix w r w'
  assume "set_field self t sweep_rate pmc w = Some (r, w')"
  with set_field_validated_ext show "extends (validated self (FIELD_RANGE w)) w w'"
    by (rule proc_extD [OF _ refl])
next
  fix w w1 w2 f e
  assume h: "field self w = (Inr f, w1) \<and> f \<noteq> t \<and> t \<noteq> 0 \<and>
      switch_heater_status self w1 = (Inr 1, w2) \<and>
      (\<forall>h ev. write_fault (ctx self) h ev = None)"
    and v: "truncated_range (ctx self) t (FIELD_RANGE w) = Inl e"
  note s1 = asks_setpoint_writes [OF act_ext_field h [THEN conjunct1]]
  note s2 = asks_setpoint_writes [OF act_ext_switch_heater_status
      h [THEN conjunct2, THEN conjunct2, THEN conjunct2, THEN conjunct1]]
  from h v s1 s2 show "set_field self t sweep_rate pmc w =
           Some (Inl e, emit (WriteI ''$A%d'' 1)
                   (case sweep_rate of None \<Rightarrow> w2 | Some r \<Rightarrow> emit (WriteF ''$T%f'' r) w2))"
    by (cases sweep_rate)
       (simp_all add: set_field_def pbind_lift pbind_def lift_def ret_def bind_def
          set_sweep_rate_def send_def set_activity_def lookup_def activity_values_def
          set_field_setpoint_def emit_def)
next
  fix w w1 w2 f v r w'
  assume h: "field self w = (Inr f, w1) \<and> f \<noteq> t \<and> t \<noteq> 0 \<and>
      switch_heater_status self w1 = (Inr 1, w2) \<and>
      (\<forall>h ev. write_fault (ctx self) h ev = None)"
    and v: "truncated_range (ctx self) t (FIELD_RANGE w) = Inr v \<and>
         set_field self t sweep_rate pmc w = Some (r, w')"
  note s1 = asks_setpoint_writes [OF act_ext_field h [THEN conjunct1]]
  note s2 = asks_setpoint_writes [OF act_ext_switch_heater_status
      h [THEN conjunct2, THEN conjunct2, THEN conjunct2, THEN conjunct1]]
  let ?w3 = "emit (WriteF ''$J%f'' v) (emit (WriteI ''$A%d'' 1)
                   (case sweep_rate of None \<Rightarrow> w2 | Some r \<Rightarrow> emit (WriteF ''$T%f'' r) w2))"
  from v have v1: "truncated_range (ctx self) t (FIELD_RANGE w) = Inr v"
    and v2: "set_field self t sweep_rate pmc w = Some (r, w')" by simp_all
  from h v1 v2 s1 s2 have rest: "pbind (wait_for_idle_default self) (\<lambda>_.
      pbind (lift (sleep 10)) (\<lambda>_.
        if pmc \<and> t \<noteq> 0 then enable_persistent_mode self else lift (ret ()))) ?w3 = Some (r, w')"
    by (cases sweep_rate)
       (simp_all add: set_field_def pbind_lift lift_def ret_def bind_def
          set_sweep_rate_def send_def set_activity_def lookup_def activity_values_def
          set_field_setpoint_def emit_def)
  with after_ramp_ext have ex: "extends (\<lambda>e. \<not> is_setpoint_write e) ?w3 w'"
    by (rule proc_extD [OF _ refl])
  then have "setpoint_writes (trace w') = setpoint_writes (trace ?w3)"
    by (rule extends_setpoint_writes)
  also have "\<dots> = setpoint_writes (trace w) @ [WriteF ''$J%f'' v]"
    using s1 s2
    by (cases sweep_rate) (simp_all add: emit_def setpoint_writes_def is_setpoint_write_def)
  finally show "setpoint_writes (trace w') = setpoint_writes (trace w) @ [WriteF ''$J%f'' v]" .
  from ex obtain evs where "trace w' = trace ?w3 @ evs" by (rule extendsE)
  then have "take (length (trace w2) + (case sweep_rate of None \<Rightarrow> 2 | Some r \<Rightarrow> 3)) (trace w')
      = trace ?w3"
    by (cases sweep_rate) (simp_all add: emit_def)
  then show "writes_of (take (length (trace w2) + (case sweep_rate of None \<Rightarrow> 2 | Some r \<Rightarrow> 3))
                      (trace w')) =
           writes_of (trace w) @
             (case sweep_rate of None \<Rightarrow> [] | Some r \<Rightarrow> [WriteF ''$T%f'' r]) @
             [WriteI ''$A%d'' 1, WriteF ''$J%f'' v]"
    using s1 s2 by (cases sweep_rate) (simp_all add: emit_def writes_of_def)
qed

theorem set_field_setpoint_validated_witness:
  "field (strict regs_demand) fresh = (Inr 0, world_at [Ask ''X'', Ask ''R7'']) \<and>
   switch_heater_status (strict regs_demand) (world_at [Ask ''X'', Ask ''R7''])
     = (Inr 1, world_at [Ask ''X'', Ask ''R7'', Ask ''X'']) \<and>
   truncated_range (ctx (strict regs_demand)) 20 (FIELD_RANGE fresh) = Inl ValueError \<and>
   set_field (strict regs_demand) 20 None False fresh =
     Some (Inl ValueError, world_at [Ask ''X'', Ask ''R7'', Ask ''X'', WriteI ''$A%d'' 1]) \<and>
   truncated_range (ctx (bench regs_demand)) 20 (FIELD_RANGE fresh) = Inr 16 \<and>
   set_field (bench regs_demand) 20 None False fresh =
     Some (Inr (), world_at [Ask ''X'', Ask ''R7'', Ask ''X'', WriteI ''$A%d'' 1,
                             WriteF ''$J%f'' 16, Sleep 1, Ask ''X'', Sleep 10]) \<and>
   setpoint_writes [Ask ''X'', Ask ''R7'', Ask ''X'', WriteI ''$A%d'' 1,
                    WriteF ''$J%f'' 16, Sleep 1, Ask ''X'', Sleep 10] = [WriteF ''$J%f'' 16] \<and>
   extends (validated (bench regs_demand) (FIELD_RANGE fresh)) fresh
     (world_at [Ask ''X'', Ask ''R7'', Ask ''X'', WriteI ''$A%d'' 1,
                WriteF ''$J%f'' 16, Sleep 1, Ask ''X'', Sleep 10])"
proof -
  let ?w1 = "world_at [Ask ''X'', Ask ''R7'']"
  let ?w2 = "world_at [Ask ''X'', Ask ''R7'', Ask ''X'']"
  let ?w3 = "world_at [Ask ''X'', Ask ''R7'', Ask ''X'', WriteI ''$A%d'' 1]"
  let ?end = "world_at [Ask ''X'', Ask ''R7'', Ask ''X'', WriteI ''$A%d'' 1,
                        WriteF ''$J%f'' 16, Sleep 1, Ask ''X'', Sleep 10]"
  have s1: "field (strict regs_demand) fresh = (Inr 0, ?w1)" by (simp add: strict_eval)
  have s2: "switch_heater_status (strict regs_demand) ?w1 = (Inr 1, ?w2)"
    by (simp add: strict_eval)
  have s3: "\<forall>h ev. write_fault (ctx (strict regs_demand)) h ev = None"
    by (simp add: strict_eval)
  have s4: "truncated_range (ctx (strict regs_demand)) 20 (FIELD_RANGE fresh) = Inl ValueError"
    by (simp add: strict_eval)
  have s5: "emit (WriteI ''$A%d'' 1) (case None :: real option of None \<Rightarrow> ?w2
              | Some r \<Rightarrow> emit (WriteF ''$T%f'' r) ?w2) = ?w3"
    by (simp add: emit_def world_at_def)
  have n: "(0::real) \<noteq> 20 \<and> (20::real) \<noteq> 0" by simp
  note t = set_field_setpoint_validated [of "strict regs_demand" 20 None False]
  from t s1 s2 s3 s4 n
  have "set_field (strict regs_demand) 20 None False fresh =
           Some (Inl ValueError, emit (WriteI ''$A%d'' 1)
             (case None :: real option of None \<Rightarrow> ?w2 | Some r \<Rightarrow> emit (WriteF ''$T%f'' r) ?w2))"
    by blast
  with s5 have a: "set_field (strict regs_demand) 20 None False fresh = Some (Inl ValueError, ?w3)"
    by simp
  have b1: "field (bench regs_demand) fresh = (Inr 0, ?w1)" by (simp add: strict_eval)
  have b2: "switch_heater_status (bench regs_demand) ?w1 = (Inr 1, ?w2)"
    by (simp add: strict_eval)
  have b3: "\<forall>h ev. write_fault (ctx (bench regs_demand)) h ev = None"
    by (simp add: strict_eval)
  have b4: "truncated_range (ctx (bench regs_demand)) 20 (FIELD_RANGE fresh) = Inr 16"
    by (simp add: strict_eval)
  have run: "set_field (bench regs_demand) 20 None False fresh = Some (Inr (), ?end)"
    by (simp add: set_field_def strict_eval)
  note u = set_field_setpoint_validated [of "bench regs_demand" 20 None False]
  from u run have c: "extends (validated (bench regs_demand) (FIELD_RANGE fresh)) fresh ?end"
    by blast
  from u b1 b2 b3 b4 run n
  have "setpoint_writes (trace ?end) = setpoint_writes (trace fresh) @ [WriteF ''$J%f'' 16]"
    by blast
  then have d: "setpoint_writes [Ask ''X'', Ask ''R7'', Ask ''X'', WriteI ''$A%d'' 1,
                    WriteF ''$J%f'' 16, Sleep 1, Ask ''X'', Sleep 10] = [WriteF ''$J%f'' 16]"
    by (simp add: world_at_def fresh_def setpoint_writes_def)
  from s1 s2 s4 a b4 run d c show ?thesis by blast
qed

subsection \<open>Configuration of an instance\<close>

text \<open>
  Claim C10. \<^verbatim>\<open>__init__\<close> stores the switch heater delay in the instance, but writes
  the field range into the one list of the class, which the \<open>field_setpoint\<close> validation
  of every instance reads. So the range is not a value of the instance: after a first
  instance has been made with the default range [-16, 16], making a second one with
  \<^verbatim>\<open>field_range=5\<close> changes the bounds used by the first. Writing the set-point 10
  through the first instance sends 10 before the second instance exists and 5 after. The
  delays stay apart (20 for the first, 3 for the second).
\<close>

theorem field_range_shared:
  "FIELD_RANGE (snd (init e cb d (Some (Number r)) w)) = [- r, r] \<and>
   FIELD_RANGE (snd (init e cb d (Some (Sequence rs)) w)) = rs \<and>
   FIELD_RANGE (snd first_instance) = [-16, 16] \<and>
   FIELD_RANGE (snd second_instance) = [-5, 5] \<and>
   SWITCH_HEATER_DELAY (fst first_instance) = 20 \<and>
   SWITCH_HEATER_DELAY (fst second_instance) = 3 \<and>
   writes_of (trace (snd (set_field_setpoint (fst first_instance) 10 (snd first_instance))))
     = [WriteF ''$J%f'' 10] \<and>
   writes_of (trace (snd (set_field_setpoint (fst first_instance) 10 (snd second_instance))))
     = [WriteF ''$J%f'' 5]"
  by (simp add: init_def first_instance_def second_instance_def writes_of_def sim_eval Let_def)

end
